theory Spec2Isabelle
  imports Complex_Main
begin

chapter \<open>GrimLog content pipeline: a shallow embedding of scripts/youtube\_transcribe.py\<close>

text \<open>
  Part I holds the embedding: every definition is a translation of a function of
  \<^verbatim>\<open>src/scripts/youtube_transcribe.py\<close> and keeps its name. Part II holds the
  properties proved about these definitions.

  Conventions. A Python exception is the \<open>Inl\<close> side of a sum type. A Python \<open>str\<close> is a
  \<open>string\<close>; the functions modelled here compare characters only with ASCII delimiters,
  and a character is read as a code point below 256. Services the script calls but does
  not implement (the strict JSON parser of the standard library, the HTTP transport, the
  ffmpeg tools, the language model) are parameters of the definitions that use them.
\<close>

section \<open>Part I: the embedding\<close>

subsection \<open>Python string operations used by the script\<close>

abbreviation DQUOTE :: char where "DQUOTE \<equiv> CHR 0x22"
abbreviation BACKSLASH :: char where "BACKSLASH \<equiv> CHR 0x5C"

text \<open>\<^verbatim>\<open>s.startswith(p)\<close>, \<^verbatim>\<open>s.endswith(p)\<close> and \<^verbatim>\<open>sub in s\<close>.\<close>

fun startswith :: "string \<Rightarrow> string \<Rightarrow> bool" where
  "startswith s [] = True"
| "startswith [] (p # ps) = False"
| "startswith (c # cs) (p # ps) = (c = p \<and> startswith cs ps)"

definition endswith :: "string \<Rightarrow> string \<Rightarrow> bool" where
  "endswith s p = startswith (rev s) (rev p)"

fun str_contains :: "string \<Rightarrow> string \<Rightarrow> bool" where
  "str_contains sub [] = (sub = [])"
| "str_contains sub (c # cs) = (startswith (c # cs) sub \<or> str_contains sub cs)"

text \<open>
  \<^verbatim>\<open>str.isspace\<close> on code points below 256: TAB, LF, VT, FF, CR, the separators
  0x1C to 0x1F, SPACE, NEL (0x85) and NBSP (0xA0).
\<close>

definition py_isspace :: "char \<Rightarrow> bool" where
  "py_isspace c = (c \<in> set [CHR 0x09, CHR 0x0A, CHR 0x0B, CHR 0x0C, CHR 0x0D,
                             CHR 0x1C, CHR 0x1D, CHR 0x1E, CHR 0x1F, CHR 0x20,
                             CHR 0x85, CHR 0xA0])"

definition rstrip :: "string \<Rightarrow> string" where
  "rstrip s = rev (dropWhile py_isspace (rev s))"

text \<open>\<^verbatim>\<open>text[:n]\<close>: a negative bound counts from the end, and the slice never raises.\<close>

definition slice_to :: "string \<Rightarrow> int \<Rightarrow> string" where
  "slice_to s n = (if 0 \<le> n then take (nat n) s else take (nat (int (length s) + n)) s)"

subsection \<open>repair\_truncated\_json (lines 537-594)\<close>

text \<open>The literal \<^verbatim>\<open>'"mentionedUnits"'\<close>, quotes included.\<close>

definition mentionedUnits_key :: string where
  "mentionedUnits_key = DQUOTE # ''mentionedUnits'' @ [DQUOTE]"

text \<open>The literal \<^verbatim>\<open>'], "unmatchedMentions": []}'\<close> appended by the repair.\<close>

definition closing_fragment :: string where
  "closing_fragment = ''], '' @ [DQUOTE] @ ''unmatchedMentions'' @ [DQUOTE] @ '': []}''"

text \<open>The four local variables of the scanning loop.\<close>

record scan_state =
  last_complete_brace :: int
  brace_depth :: int
  in_string :: bool
  escape_next :: bool

definition scan_init :: scan_state where
  "scan_init = \<lparr>last_complete_brace = -1, brace_depth = 0, in_string = False,
                 escape_next = False\<rparr>"

text \<open>
  One iteration of \<^verbatim>\<open>for i, char in enumerate(text)\<close>; each \<^verbatim>\<open>continue\<close> is a branch
  that returns the state. The tests are kept in the order of the source: the escape flag,
  the backslash, the quote, the string mode, and only then the braces.
\<close>

definition scan_char :: "scan_state \<Rightarrow> nat \<Rightarrow> char \<Rightarrow> scan_state" where
  "scan_char s i c =
     (if escape_next s then s\<lparr>escape_next := False\<rparr>
      else if c = BACKSLASH then s\<lparr>escape_next := True\<rparr>
      else if c = DQUOTE \<and> \<not> escape_next s then s\<lparr>in_string := \<not> in_string s\<rparr>
      else if in_string s then s
      else if c = CHR ''{'' then s\<lparr>brace_depth := brace_depth s + 1\<rparr>
      else if c = CHR ''}'' then
        (let s' = s\<lparr>brace_depth := brace_depth s - 1\<rparr>
         in if 1 \<le> brace_depth s' then s'\<lparr>last_complete_brace := int i\<rparr> else s')
      else s)"

fun scan_loop :: "scan_state \<Rightarrow> nat \<Rightarrow> string \<Rightarrow> scan_state" where
  "scan_loop s i [] = s"
| "scan_loop s i (c # cs) = scan_loop (scan_char s i c) (Suc i) cs"

definition repair_truncated_json :: "string \<Rightarrow> string option" where
  "repair_truncated_json text =
     (if \<not> str_contains mentionedUnits_key text then None
      else
        let s = scan_loop scan_init 0 text in
        if last_complete_brace s = -1 then None
        else
          let repaired = slice_to text (last_complete_brace s + 1) in
          if endswith (rstrip repaired) ''}'' then
            let repaired = rstrip repaired;
                repaired = (if endswith repaired '','' then butlast repaired else repaired)
            in Some (repaired @ closing_fragment)
          else Some repaired)"

subsection \<open>The decoding step of curate\_pending\_sources (lines 2693-2706)\<close>

text \<open>
  \<^verbatim>\<open>json.loads\<close> belongs to the Python standard library, so the strict parser is the
  parameter \<open>json_loads\<close>: \<open>Inl e\<close> is a raised \<^verbatim>\<open>JSONDecodeError e\<close>, \<open>Inr v\<close> the decoded
  document. \<^verbatim>\<open>if repaired_text:\<close> is Python truthiness: \<^verbatim>\<open>None\<close> and the empty string
  both take the \<^verbatim>\<open>else\<close> branch. Either failure re-raises the first error \<open>e\<close>.
\<close>

definition curation_json_decode :: "(string \<Rightarrow> 'e + 'j) \<Rightarrow> string \<Rightarrow> 'e + 'j" where
  "curation_json_decode json_loads text =
     (case json_loads text of
        Inr curation_result \<Rightarrow> Inr curation_result
      | Inl e \<Rightarrow>
          (case repair_truncated_json text of
             None \<Rightarrow> Inl e
           | Some repaired_text \<Rightarrow>
               if repaired_text \<noteq> [] then
                 (case json_loads repaired_text of
                    Inr curation_result \<Rightarrow> Inr curation_result
                  | Inl _ \<Rightarrow> Inl e)
               else Inl e))"

subsection \<open>Reading the scan position by position\<close>

text \<open>
  The specification describes the scan by what each position of the text is: a
  \<^verbatim>\<open>}\<close> counts when it stands outside every quoted string, is not escaped, and closes
  an object nested in the top-level one. \<open>lex_prefix text i\<close> is the lexical state in
  front of position \<open>i\<close>; \<open>closes_nested text i\<close> says that position \<open>i\<close> is such a brace
  (depth at least 2 in front of it, so at least 1 once it is closed);
  \<open>nested_closers\<close> lists these positions in increasing order.
\<close>

record lex_state =
  depth :: int
  quoted :: bool
  escaped :: bool

definition lex_init :: lex_state where
  "lex_init = \<lparr>depth = 0, quoted = False, escaped = False\<rparr>"

definition lex_char :: "lex_state \<Rightarrow> char \<Rightarrow> lex_state" where
  "lex_char l c =
     (if escaped l then l\<lparr>escaped := False\<rparr>
      else if c = BACKSLASH then l\<lparr>escaped := True\<rparr>
      else if c = DQUOTE then l\<lparr>quoted := \<not> quoted l\<rparr>
      else if quoted l then l
      else if c = CHR ''{'' then l\<lparr>depth := depth l + 1\<rparr>
      else if c = CHR ''}'' then l\<lparr>depth := depth l - 1\<rparr>
      else l)"

definition lex_prefix :: "string \<Rightarrow> nat \<Rightarrow> lex_state" where
  "lex_prefix text i = foldl lex_char lex_init (take i text)"

definition closes_here :: "lex_state \<Rightarrow> char \<Rightarrow> bool" where
  "closes_here l c = (c = CHR ''}'' \<and> \<not> escaped l \<and> \<not> quoted l \<and> 2 \<le> depth l)"

definition closes_nested :: "string \<Rightarrow> nat \<Rightarrow> bool" where
  "closes_nested text i = (i < length text \<and> closes_here (lex_prefix text i) (text ! i))"

definition nested_closers :: "string \<Rightarrow> nat list" where
  "nested_closers text = filter (closes_nested text) [0..<length text]"

text \<open>
  Two auxiliaries for the proofs: the lexical part of a loop state, and the closing
  positions of a remaining text counted from a given lexical state.
\<close>

definition lex_of :: "scan_state \<Rightarrow> lex_state" where
  "lex_of s = \<lparr>depth = brace_depth s, quoted = in_string s, escaped = escape_next s\<rparr>"

definition closers_from :: "lex_state \<Rightarrow> string \<Rightarrow> nat list" where
  "closers_from l cs =
     filter (\<lambda>k. closes_here (foldl lex_char l (take k cs)) (cs ! k)) [0..<length cs]"

text \<open>
  A strict parser for the examples: it accepts one document and rejects every other text.
\<close>

definition accepts_only :: "string \<Rightarrow> string \<Rightarrow> string + string" where
  "accepts_only document s = (if s = document then Inr s else Inl ''Expecting value'')"

text \<open>Example texts: a truncated curation response, and a truncated document without the key.\<close>

definition truncated_response :: string where
  "truncated_response =
     ''{'' @ mentionedUnits_key @ '': [{'' @ [DQUOTE] @ ''mentionCount'' @ [DQUOTE] @
     '': 5}, {'' @ [DQUOTE] @ ''mentionCou''"

definition repaired_response :: string where
  "repaired_response =
     ''{'' @ mentionedUnits_key @ '': [{'' @ [DQUOTE] @ ''mentionCount'' @ [DQUOTE] @
     '': 5}'' @ closing_fragment"

definition truncated_other :: string where
  "truncated_other =
     ''{'' @ [DQUOTE] @ ''units'' @ [DQUOTE] @ '': [{'' @ [DQUOTE] @ ''n'' @ [DQUOTE] @
     '': 5}, {'' @ [DQUOTE] @ ''n''"

subsection \<open>requests\_with\_retry (lines 101-115)\<close>

text \<open>
  \<^verbatim>\<open>requests.request\<close> is the transport: \<open>transport k\<close> is what the call number \<open>k\<close>
  (counted from 0) does, either a response or a raised exception. The \<^verbatim>\<open>except\<close> clause
  catches \<^verbatim>\<open>ConnectionError\<close> and \<^verbatim>\<open>ChunkedEncodingError\<close>; every other exception leaves
  the function at once.
\<close>

datatype request_error =
  ConnectionError string
| ChunkedEncodingError string
| OtherRequestException string

fun is_connection_failure :: "request_error \<Rightarrow> bool" where
  "is_connection_failure (ConnectionError _) = True"
| "is_connection_failure (ChunkedEncodingError _) = True"
| "is_connection_failure (OtherRequestException _) = False"

text \<open>
  What a run of the function does: the value it returns or the exception it raises
  (\<open>Inr None\<close> is falling off the loop, which returns \<^verbatim>\<open>None\<close>), the arguments of its
  calls to \<^verbatim>\<open>time.sleep\<close> in order, and the number of requests it sent.
\<close>

record 'r retry_run =
  returned :: "request_error + 'r option"
  slept :: "nat list"
  requests_made :: nat

text \<open>
  The loop \<^verbatim>\<open>for attempt in range(max_retries)\<close>, on the attempts still to run. The
  response of a request is returned whatever its status code is.
\<close>

fun retry_loop ::
  "(nat \<Rightarrow> request_error + 'r) \<Rightarrow> int \<Rightarrow> nat list \<Rightarrow> nat list \<Rightarrow> nat \<Rightarrow> 'r retry_run" where
  "retry_loop transport max_retries [] waits sent =
     \<lparr>returned = Inr None, slept = waits, requests_made = sent\<rparr>"
| "retry_loop transport max_retries (attempt # rest) waits sent =
     (case transport sent of
        Inr response \<Rightarrow>
          \<lparr>returned = Inr (Some response), slept = waits, requests_made = Suc sent\<rparr>
      | Inl e \<Rightarrow>
          if is_connection_failure e then
            if int attempt < max_retries - 1 then
              retry_loop transport max_retries rest (waits @ [2 ^ attempt]) (Suc sent)
            else \<lparr>returned = Inl e, slept = waits, requests_made = Suc sent\<rparr>
          else \<lparr>returned = Inl e, slept = waits, requests_made = Suc sent\<rparr>)"

definition requests_with_retry :: "(nat \<Rightarrow> request_error + 'r) \<Rightarrow> int \<Rightarrow> 'r retry_run" where
  "requests_with_retry transport max_retries =
     retry_loop transport max_retries [0..<nat max_retries] [] 0"

text \<open>Every caller in the script leaves \<^verbatim>\<open>max_retries\<close> at its default.\<close>

definition default_max_retries :: int where
  "default_max_retries = 3"

text \<open>A transport on which every request meets a reset connection.\<close>

definition always_reset :: "nat \<Rightarrow> request_error + nat" where
  "always_reset k = Inl (ConnectionError ''Connection reset by peer'')"

subsection \<open>Audio: splitting, compression and transcription (lines 730-846)\<close>


text \<open>\<^verbatim>\<open>str(n)\<close> for a natural number, \<^verbatim>\<open>sep.join(parts)\<close> and \<^verbatim>\<open>s.strip()\<close>.\<close>

definition digit_char :: "nat \<Rightarrow> char" where
  "digit_char d = ''0123456789'' ! d"

fun str_of_nat :: "nat \<Rightarrow> string" where
  "str_of_nat n = (if n < 10 then [digit_char n] else str_of_nat (n div 10) @ [digit_char (n mod 10)])"

declare str_of_nat.simps [simp del]





















subsection \<open>JSON values and Python dictionaries\<close>

text \<open>
  The values \<^verbatim>\<open>json.loads\<close> produces and the rows and keyword arguments the script
  passes around. A dictionary is an association list read from the left; floats are
  exact rationals.
\<close>

datatype json =
  JNull
| JBool bool
| JInt int
| JFloat rat
| JStr string
| JList "json list"
| JDict "(string \<times> json) list"

type_synonym dict = "(string \<times> json) list"

definition dict_get :: "dict \<Rightarrow> string \<Rightarrow> json \<Rightarrow> json" where
  \<comment> \<open>\<^verbatim>\<open>d.get(key, default)\<close>\<close>
  "dict_get d key fallback = (case map_of d key of Some v \<Rightarrow> v | None \<Rightarrow> fallback)"

definition dict_set :: "dict \<Rightarrow> string \<Rightarrow> json \<Rightarrow> dict" where
  \<comment> \<open>\<^verbatim>\<open>d[key] = v\<close>\<close>
  "dict_set d key v = (key, v) # filter (\<lambda>kv. fst kv \<noteq> key) d"

text \<open>Python truthiness, as \<^verbatim>\<open>if x:\<close> and \<^verbatim>\<open>x and y\<close> read a value.\<close>

fun truthy :: "json \<Rightarrow> bool" where
  "truthy JNull = False"
| "truthy (JBool b) = b"
| "truthy (JInt n) = (n \<noteq> 0)"
| "truthy (JFloat x) = (x \<noteq> 0)"
| "truthy (JStr s) = (s \<noteq> [])"
| "truthy (JList xs) = (xs \<noteq> [])"
| "truthy (JDict d) = (d \<noteq> [])"




definition set_in_env :: "string option \<Rightarrow> bool" where
  \<comment> \<open>\<^verbatim>\<open>os.getenv(name)\<close> is truthy: the variable is set and not empty\<close>
  "set_in_env v = (case v of None \<Rightarrow> False | Some s \<Rightarrow> s \<noteq> [])"

subsection \<open>The datastore (lines 144-443)\<close>

text \<open>
  The four tables the pipeline reads and writes, with the columns its statements name.
  Columns of a source that the script only copies (content, title, author, platform id,
  error message, duration, publication date) are kept as a dictionary, as the rows of
  the cursor are. The table definitions themselves are not part of the script: the
  defaults of a new link (no extracted context, not outdated) are the ones its
  statements rely on.
\<close>

type_synonym ident = string
type_synonym timestamp = nat

record competitive_source =
  cs_id :: ident
  cs_sourceType :: string
  cs_status :: string
  cs_factionId :: "ident option"
  cs_createdAt :: timestamp
  cs_updatedAt :: timestamp
  cs_columns :: dict

record datasheet =
  d_id :: ident
  d_name :: string
  d_faction :: string
  d_factionId :: "ident option"
  d_isEnabled :: bool

record datasheet_source =
  ds_id :: ident
  ds_datasheetId :: ident
  ds_competitiveSourceId :: ident
  ds_relevanceScore :: json
  ds_mentionCount :: json
  ds_mentionSummary :: json
  ds_status :: string
  ds_extractedContext :: "json option"
  ds_confidence :: "json option"
  ds_isOutdated :: bool
  ds_createdAt :: timestamp
  ds_updatedAt :: timestamp
  ds_extractedAt :: "timestamp option"

record competitive_context =
  cc_id :: ident
  cc_datasheetId :: ident
  cc_factionId :: "ident option"
  cc_detachmentId :: "ident option"
  cc_columns :: dict
  cc_lastAggregated :: timestamp
  cc_createdAt :: timestamp
  cc_updatedAt :: timestamp

record database =
  CompetitiveSource :: "competitive_source list"
  Datasheet :: "datasheet list"
  DatasheetSource :: "datasheet_source list"
  DatasheetCompetitiveContext :: "competitive_context list"
  uuid_draws :: nat

text \<open>
  What a run of the script finds around it. The three conditions of get\_db\_connection;
  the value of \<^verbatim>\<open>NOW()\<close> (one run sees one time) and the values \<^verbatim>\<open>gen_random_uuid()\<close>
  draws; and the services behind the three phases, each summarising a stretch of code
  whose outcome the script does not decide:
  \<^item> \<open>acquire_content no_whisper source\<close> is the body of the \<^verbatim>\<open>try\<close> of
    fetch\_pending\_sources up to the test of the content (lines 2456-2493): the keyword
    arguments for the update, or the message of the exception it raised;
  \<^item> \<open>gemini_curation source datasheets\<close> is the request of lines 2653-2690: the text
    of the first candidate, or the message of any exception up to there (a failed request,
    a status other than 200, a body of another shape);
  \<^item> \<open>strict_json_loads\<close> is \<^verbatim>\<open>json.loads\<close>;
  \<^item> \<open>unit_context_reply\<close> is what extract\_unit\_context (lines 1417-1621) returns;
  \<^item> \<open>synthesize datasheet sources\<close> is the stretch of aggregate\_datasheet\_context
    from the prompt to the display of the result (lines 2263-2364): an exception that
    leaves the function (the prompt and the display stand outside every \<^verbatim>\<open>try\<close>), a
    \<^verbatim>\<open>return 1\<close> of the request or of its handler, or the decoded object.

  Two functions of the datastore itself are parameters as well, the table definitions and
  the locale of the server not being part of the script: \<open>datasheet_id_column v\<close> is
  the text the column \<^verbatim>\<open>datasheetId\<close> takes for the parameter \<open>v\<close> of an insert, \<open>None\<close>
  when the statement is refused; \<open>sql_lower\<close> is \<^verbatim>\<open>LOWER\<close>.

  Tracing is off in the model (\<^verbatim>\<open>HAS_LANGFUSE\<close> is false, as it is unless
  \<^verbatim>\<open>LANGFUSE_SECRET_KEY\<close> is set): the calls it guards are left out.
\<close>

datatype extraction =
  ExtractionFailed string
| UnitNotFound string
| UnitContext dict dict

datatype synthesis =
  SynthesisRaised string
| SynthesisFailed string
| Synthesized dict

record pipeline_env =
  GOOGLE_API_KEY :: "string option"
  HAS_PSYCOPG2 :: bool
  DATABASE_URL :: "string option"
  connect_succeeds :: bool
  clock_now :: timestamp
  gen_random_uuid :: "nat \<Rightarrow> ident"
  acquire_content :: "bool \<Rightarrow> competitive_source \<Rightarrow> string + dict"
  gemini_curation :: "competitive_source \<Rightarrow> datasheet list \<Rightarrow> string + string"
  strict_json_loads :: "string \<Rightarrow> string + json"
  unit_context_reply :: "json \<Rightarrow> string \<Rightarrow> string \<Rightarrow> json \<Rightarrow> extraction"
  synthesize :: "datasheet \<Rightarrow> dict list \<Rightarrow> synthesis"
  datasheet_id_column :: "json \<Rightarrow> ident option"
  sql_lower :: "string \<Rightarrow> string"

text \<open>
  get\_db\_connection (lines 147-167). The connection it caches is not modelled: the
  conditions do not change during a run, so a second call answers as the first.
\<close>

definition get_db_connection :: "pipeline_env \<Rightarrow> string + unit" where
  "get_db_connection env =
     (if \<not> HAS_PSYCOPG2 env then Inl ''psycopg2 is required for database access''
      else if \<not> set_in_env (DATABASE_URL env) then Inl ''DATABASE_URL not found in .env.local''
      else if \<not> connect_succeeds env then Inl ''could not connect to server''
      else Inr ())"



text \<open>
  db\_update\_source\_status (lines 209-236): the status and the time of the update, and
  each column of \<^verbatim>\<open>field_mapping\<close> whose keyword argument is given and is not \<^verbatim>\<open>None\<close>.
\<close>

definition field_mapping :: "string list" where
  "field_mapping = [''content'', ''contentTitle'', ''authorName'', ''sourceId'',
                    ''errorMessage'', ''duration'', ''publishedAt'']"

definition set_clauses :: "dict \<Rightarrow> dict \<Rightarrow> dict" where
  "set_clauses columns kwargs =
     foldl (\<lambda>cols key.
              case map_of kwargs key of
                None \<Rightarrow> cols
              | Some v \<Rightarrow> if v \<noteq> JNull then dict_set cols key v else cols)
       columns field_mapping"

definition db_update_source_status ::
  "pipeline_env \<Rightarrow> database \<Rightarrow> ident \<Rightarrow> string \<Rightarrow> dict \<Rightarrow> string + database" where
  "db_update_source_status env db source_id status kwargs =
     (case get_db_connection env of
        Inl e \<Rightarrow> Inl e
      | Inr _ \<Rightarrow>
          Inr (db\<lparr>CompetitiveSource :=
                 map (\<lambda>cs. if cs_id cs = source_id
                            then cs\<lparr>cs_status := status, cs_updatedAt := clock_now env,
                                    cs_columns := set_clauses (cs_columns cs) kwargs\<rparr>
                            else cs)
                   (CompetitiveSource db)\<rparr>))"

text \<open>
  db\_create\_datasheet\_links (lines 238-262). One statement per link, each committed on
  its own: an insert, which on a conflict on (datasheetId, competitiveSourceId) becomes
  an update of the score, the count, the summary and the time of the row in conflict.
  The function draws a uuid in either case. A link without the key \<^verbatim>\<open>datasheetId\<close>
  raises KeyError, and a statement the datastore refuses for the id it is given raises
  the error of the datastore; the statements before it stay committed.
\<close>

definition link_key :: "datasheet_source \<Rightarrow> ident \<times> ident" where
  "link_key r = (ds_datasheetId r, ds_competitiveSourceId r)"

definition insert_on_conflict_update ::
  "pipeline_env \<Rightarrow> database \<Rightarrow> ident \<Rightarrow> ident \<Rightarrow> json \<Rightarrow> json \<Rightarrow> json \<Rightarrow> database" where
  "insert_on_conflict_update env db datasheet_id source_id score mentions summary =
     (let rows = DatasheetSource db;
          rows' =
            (if (datasheet_id, source_id) \<in> set (map link_key rows) then
               map (\<lambda>r. if link_key r = (datasheet_id, source_id)
                          then r\<lparr>ds_relevanceScore := score, ds_mentionCount := mentions,
                                 ds_mentionSummary := summary, ds_updatedAt := clock_now env\<rparr>
                          else r) rows
             else
               rows @
               [\<lparr>ds_id = gen_random_uuid env (uuid_draws db),
                 ds_datasheetId = datasheet_id,
                 ds_competitiveSourceId = source_id,
                 ds_relevanceScore = score,
                 ds_mentionCount = mentions,
                 ds_mentionSummary = summary,
                 ds_status = ''pending'',
                 ds_extractedContext = None,
                 ds_confidence = None,
                 ds_isOutdated = False,
                 ds_createdAt = clock_now env,
                 ds_updatedAt = clock_now env,
                 ds_extractedAt = None\<rparr>])
      in db\<lparr>DatasheetSource := rows', uuid_draws := Suc (uuid_draws db)\<rparr>)"

fun create_links_loop ::
  "pipeline_env \<Rightarrow> ident \<Rightarrow> dict list \<Rightarrow> database \<Rightarrow> string option \<times> database" where
  "create_links_loop env source_id [] db = (None, db)"
| "create_links_loop env source_id (link # links) db =
     (case map_of link ''datasheetId'' of
        None \<Rightarrow> (Some ''KeyError: datasheetId'', db)
      | Some v \<Rightarrow>
          (case datasheet_id_column env v of
             None \<Rightarrow> (Some ''DataError: datasheetId'', db)
           | Some datasheet_id \<Rightarrow>
               create_links_loop env source_id links
                 (insert_on_conflict_update env db datasheet_id source_id
                    (dict_get link ''relevanceScore'' (JFloat (1 / 2)))
                    (dict_get link ''mentionCount'' (JInt 1))
                    (dict_get link ''mentionSummary'' (JStr [])))))"

definition db_create_datasheet_links ::
  "pipeline_env \<Rightarrow> database \<Rightarrow> ident \<Rightarrow> dict list \<Rightarrow> string option \<times> database" where
  "db_create_datasheet_links env db source_id links =
     (case get_db_connection env of
        Inl e \<Rightarrow> (Some e, db)
      | Inr _ \<Rightarrow> create_links_loop env source_id links db)"

text \<open>
  db\_get\_pending\_datasheet\_sources (lines 264-279): the pending links joined with
  their datasheet and with their source, when that source is curated or extracted.
\<close>

record pending_link =
  pl_id :: ident
  pl_datasheetId :: ident
  pl_sourceId :: ident
  pl_datasheetName :: string
  pl_faction :: string
  pl_content :: json
  pl_contentTitle :: json

definition pending_links_query :: "database \<Rightarrow> pending_link list" where
  "pending_links_query db =
     [\<lparr>pl_id = ds_id ds, pl_datasheetId = ds_datasheetId ds,
       pl_sourceId = ds_competitiveSourceId ds, pl_datasheetName = d_name d,
       pl_faction = d_faction d,
       pl_content = dict_get (cs_columns cs) ''content'' JNull,
       pl_contentTitle = dict_get (cs_columns cs) ''contentTitle'' JNull\<rparr>.
      ds \<leftarrow> sort_key ds_createdAt (DatasheetSource db), ds_status ds = ''pending'',
      d \<leftarrow> Datasheet db, d_id d = ds_datasheetId ds,
      cs \<leftarrow> CompetitiveSource db, cs_id cs = ds_competitiveSourceId ds,
      cs_status cs = ''curated'' \<or> cs_status cs = ''extracted'']"

definition db_get_pending_datasheet_sources ::
  "pipeline_env \<Rightarrow> database \<Rightarrow> string + pending_link list" where
  "db_get_pending_datasheet_sources env db =
     (case get_db_connection env of
        Inl e \<Rightarrow> Inl e
      | Inr _ \<Rightarrow> Inr (pending_links_query db))"

text \<open>db\_update\_datasheet\_source\_extraction (lines 281-293).\<close>

definition store_extraction ::
  "timestamp \<Rightarrow> json \<Rightarrow> json \<Rightarrow> string \<Rightarrow> datasheet_source \<Rightarrow> datasheet_source" where
  "store_extraction t extracted_context confidence status r =
     r\<lparr>ds_extractedContext := Some extracted_context, ds_confidence := Some confidence,
       ds_status := status, ds_extractedAt := Some t, ds_updatedAt := t\<rparr>"

definition db_update_datasheet_source_extraction ::
  "pipeline_env \<Rightarrow> database \<Rightarrow> ident \<Rightarrow> json \<Rightarrow> json \<Rightarrow> string \<Rightarrow> string + database" where
  "db_update_datasheet_source_extraction env db link_id extracted_context confidence status =
     (case get_db_connection env of
        Inl e \<Rightarrow> Inl e
      | Inr _ \<Rightarrow>
          Inr (db\<lparr>DatasheetSource :=
                 map (\<lambda>r. if ds_id r = link_id
                           then store_extraction (clock_now env) extracted_context confidence
                                  status r
                           else r)
                   (DatasheetSource db)\<rparr>))"

text \<open>
  db\_get\_datasheet\_by\_name as aggregate\_datasheet\_context calls it (lines 307-313,
  no faction given): the first row whose name is the given one under \<^verbatim>\<open>LOWER\<close>.
\<close>

definition db_get_datasheet_by_name ::
  "pipeline_env \<Rightarrow> database \<Rightarrow> string \<Rightarrow> string + datasheet option" where
  "db_get_datasheet_by_name env db name =
     (case get_db_connection env of
        Inl e \<Rightarrow> Inl e
      | Inr _ \<Rightarrow>
          Inr (find (\<lambda>d. sql_lower env (d_name d) = sql_lower env name) (Datasheet db)))"

text \<open>
  db\_get\_datasheet\_sources\_for\_aggregation (lines 315-331): the extracted context and
  the confidence of every extracted link of the datasheet that is not outdated, with the
  columns of its source. The rows come in table order: the order by publication date
  only arranges the prompt.
\<close>

definition aggregation_sources :: "database \<Rightarrow> ident \<Rightarrow> dict list" where
  "aggregation_sources db datasheet_id =
     [(''extractedContext'', case ds_extractedContext ds of None \<Rightarrow> JNull | Some c \<Rightarrow> c) #
      (''confidence'', case ds_confidence ds of None \<Rightarrow> JNull | Some c \<Rightarrow> c) #
      (''sourceType'', JStr (cs_sourceType cs)) # cs_columns cs.
      ds \<leftarrow> DatasheetSource db, ds_datasheetId ds = datasheet_id,
      ds_status ds = ''extracted'', \<not> ds_isOutdated ds,
      cs \<leftarrow> CompetitiveSource db, cs_id cs = ds_competitiveSourceId ds]"

definition db_get_datasheet_sources_for_aggregation ::
  "pipeline_env \<Rightarrow> database \<Rightarrow> ident \<Rightarrow> string + dict list" where
  "db_get_datasheet_sources_for_aggregation env db datasheet_id =
     (case get_db_connection env of
        Inl e \<Rightarrow> Inl e
      | Inr _ \<Rightarrow> Inr (aggregation_sources db datasheet_id))"

text \<open>
  db\_upsert\_datasheet\_competitive\_context (lines 333-394): the row of the scope
  (datasheet, faction or none, detachment or none) is updated when there is one and
  inserted otherwise.
\<close>

definition context_columns :: "string list" where
  "context_columns = [''competitiveTier'', ''tierReasoning'', ''bestTargets'', ''counters'',
                      ''synergies'', ''playstyleNotes'', ''deploymentTips'',
                      ''competitiveNotes'', ''sourceCount'', ''conflicts'']"

definition db_upsert_datasheet_competitive_context ::
  "pipeline_env \<Rightarrow> database \<Rightarrow> ident \<Rightarrow> ident option \<Rightarrow> ident option \<Rightarrow> dict
     \<Rightarrow> string + database" where
  "db_upsert_datasheet_competitive_context env db datasheet_id faction_id detachment_id
       context_data =
     (case get_db_connection env of
        Inl e \<Rightarrow> Inl e
      | Inr _ \<Rightarrow>
          (case find (\<lambda>r. cc_datasheetId r = datasheet_id \<and> cc_factionId r = faction_id \<and>
                            cc_detachmentId r = detachment_id)
                  (DatasheetCompetitiveContext db) of
             Some existing \<Rightarrow>
               Inr (db\<lparr>DatasheetCompetitiveContext :=
                      map (\<lambda>r. if cc_id r = cc_id existing
                                then r\<lparr>cc_updatedAt := clock_now env,
                                       cc_lastAggregated := clock_now env,
                                       cc_columns :=
                                         foldl (\<lambda>cols kv.
                                                  if fst kv \<in> set context_columns
                                                  then dict_set cols (fst kv) (snd kv)
                                                  else cols)
                                           (cc_columns r) context_data\<rparr>
                                else r)
                        (DatasheetCompetitiveContext db)\<rparr>)
           | None \<Rightarrow>
               Inr (db\<lparr>DatasheetCompetitiveContext :=
                      DatasheetCompetitiveContext db @
                      [\<lparr>cc_id = gen_random_uuid env (uuid_draws db),
                        cc_datasheetId = datasheet_id,
                        cc_factionId = faction_id,
                        cc_detachmentId = detachment_id,
                        cc_columns =
                          map (\<lambda>key. (key, dict_get context_data key
                                              (if key = ''sourceCount'' then JInt 0 else JNull)))
                            context_columns,
                        cc_lastAggregated = clock_now env,
                        cc_createdAt = clock_now env,
                        cc_updatedAt = clock_now env\<rparr>],
                      uuid_draws := Suc (uuid_draws db)\<rparr>)))"


subsection \<open>The phases of the pipeline (lines 2407-2902)\<close>

text \<open>
  A phase returns its exit code and the datastore it leaves. \<open>Inl\<close> in place of the code
  is an exception that leaves the function: the interpreter then ends with status 1.
  Lines that only print are left out.
\<close>

type_synonym outcome = "string + int"











text \<open>
  extract\_unit\_context returns a dictionary of one of three shapes, on every path: a
  failure with its message, a reply that the unit is not discussed, or the context built
  from the reply (lines 1567-1594), whose \<^verbatim>\<open>context\<close> entry is an object.
\<close>

definition extraction_dict :: "extraction \<Rightarrow> dict" where
  "extraction_dict reply =
     (case reply of
        ExtractionFailed e \<Rightarrow> [(''success'', JBool False), (''error'', JStr e)]
      | UnitNotFound message \<Rightarrow>
          [(''success'', JBool True), (''found'', JBool False), (''message'', JStr message)]
      | UnitContext unit_info context_fields \<Rightarrow>
          (''success'', JBool True) # (''found'', JBool True) #
          (''context'', JDict context_fields) # unit_info)"

definition extract_unit_context :: "pipeline_env \<Rightarrow> pending_link \<Rightarrow> dict" where
  "extract_unit_context env link =
     extraction_dict
       (unit_context_reply env (pl_content link) (pl_datasheetName link) (pl_faction link)
          (pl_contentTitle link))"

text \<open>
  extract\_pending\_links (lines 2778-2874). One round of its loop: the link is stored as
  extracted in both branches; an exception inside the \<^verbatim>\<open>try\<close> leaves the datastore as
  it is.
\<close>

definition not_found_context :: json where
  \<comment> \<open>\<^verbatim>\<open>{"found": False}\<close>\<close>
  "not_found_context = JDict [(''found'', JBool False)]"

definition extract_one :: "pipeline_env \<Rightarrow> pending_link \<Rightarrow> database \<Rightarrow> database" where
  "extract_one env link db =
     (let result = extract_unit_context env link in
      if truthy (dict_get result ''success'' JNull) \<and> truthy (dict_get result ''found'' JNull)
      then
        (case dict_get result ''context'' (JDict []) of
           JDict context_fields \<Rightarrow>
             (case db_update_datasheet_source_extraction env db (pl_id link) (JDict result)
                     (dict_get context_fields ''confidence'' (JInt 50)) ''extracted'' of
                Inl e \<Rightarrow> db
              | Inr db' \<Rightarrow> db')
         | _ \<Rightarrow> db)
      else
        (case db_update_datasheet_source_extraction env db (pl_id link) not_found_context
                (JInt 0) ''extracted'' of
           Inl e \<Rightarrow> db
         | Inr db' \<Rightarrow> db'))"

definition processed_sources :: "pending_link list \<Rightarrow> ident list" where
  \<comment> \<open>the set of the truthy source ids, each once\<close>
  "processed_sources links = remdups (filter (\<lambda>source_id. source_id \<noteq> []) (map pl_sourceId links))"

definition mark_source_extracted :: "pipeline_env \<Rightarrow> database \<Rightarrow> ident \<Rightarrow> database" where
  "mark_source_extracted env db source_id =
     (case db_update_source_status env db source_id ''extracted'' [] of
        Inl e \<Rightarrow> db
      | Inr db' \<Rightarrow> db')"

definition extract_pending_links :: "pipeline_env \<Rightarrow> database \<Rightarrow> outcome \<times> database" where
  "extract_pending_links env db =
     (if \<not> set_in_env (GOOGLE_API_KEY env) then (Inr 1, db)
      else
        (case db_get_pending_datasheet_sources env db of
           Inl e \<Rightarrow> (Inr 1, db)
         | Inr pending_links \<Rightarrow>
             if pending_links = [] then (Inr 0, db)
             else
               (Inr 0,
                foldl (mark_source_extracted env)
                  (foldl (\<lambda>db link. extract_one env link db) db pending_links)
                  (processed_sources pending_links))))"


subsection \<open>aggregate\_datasheet\_context (lines 2175-2400)\<close>

definition opt_str :: "string option \<Rightarrow> string" where
  "opt_str v = (case v of None \<Rightarrow> [] | Some s \<Rightarrow> s)"

text \<open>
  Lines 2213-2230: the id given, or the id of the datasheet of the given name. \<open>Inl\<close> is
  a \<^verbatim>\<open>return 1\<close>.
\<close>

definition resolve_datasheet_id ::
  "pipeline_env \<Rightarrow> database \<Rightarrow> string option \<Rightarrow> string option \<Rightarrow> string + ident" where
  "resolve_datasheet_id env db datasheet_id datasheet_name =
     (let resolved =
            (if opt_str datasheet_name \<noteq> [] \<and> opt_str datasheet_id = [] then
               (case db_get_datasheet_by_name env db (opt_str datasheet_name) of
                  Inl e \<Rightarrow> Inl ''Error searching for datasheet''
                | Inr None \<Rightarrow> Inl ''No datasheet found''
                | Inr (Some datasheet_record) \<Rightarrow> Inr (d_id datasheet_record))
             else Inr (opt_str datasheet_id))
      in case resolved of
           Inl e \<Rightarrow> Inl e
         | Inr resolved_id \<Rightarrow>
             if resolved_id = [] then Inl ''Must provide --datasheet-id or --datasheet-name''
             else Inr resolved_id)"

text \<open>The keyword arguments of the upsert (lines 2376-2390), serialisation left out.\<close>

definition aggregated_context_data :: "dict \<Rightarrow> nat \<Rightarrow> dict" where
  "aggregated_context_data aggregated source_count =
     (let conflicts = dict_get aggregated ''conflicts'' (JList []) in
      [(''competitiveTier'', dict_get aggregated ''competitiveTier'' JNull),
       (''tierReasoning'', dict_get aggregated ''tierReasoning'' JNull),
       (''bestTargets'', dict_get aggregated ''bestTargets'' (JList [])),
       (''counters'', dict_get aggregated ''counters'' (JList [])),
       (''synergies'', dict_get aggregated ''synergies'' (JList [])),
       (''playstyleNotes'', dict_get aggregated ''playstyleNotes'' JNull),
       (''deploymentTips'', dict_get aggregated ''deploymentTips'' JNull),
       (''competitiveNotes'', dict_get aggregated ''competitiveNotes'' JNull),
       (''sourceCount'', JInt (int source_count)),
       (''conflicts'', if truthy conflicts then conflicts else JNull)])"

text \<open>
  The result of the command: the exit code it returns (or the exception that leaves
  it), the datastore, and the two lines it prints about the sources it found. When the
  upsert fails the result is saved to a local file instead (lines 2392-2397).
\<close>

record aggregate_run =
  ended :: outcome
  datastore :: database
  printed :: "string list"

definition aggregate_datasheet_context ::
  "pipeline_env \<Rightarrow> database \<Rightarrow> string option \<Rightarrow> string option \<Rightarrow> string option
     \<Rightarrow> string option \<Rightarrow> aggregate_run" where
  "aggregate_datasheet_context env db datasheet_id datasheet_name faction_id detachment_id =
     (if \<not> set_in_env (GOOGLE_API_KEY env) then
        \<lparr>ended = Inr 1, datastore = db, printed = []\<rparr>
      else
        (case resolve_datasheet_id env db datasheet_id datasheet_name of
           Inl e \<Rightarrow> \<lparr>ended = Inr 1, datastore = db, printed = []\<rparr>
         | Inr resolved_id \<Rightarrow>
             (case db_get_datasheet_sources_for_aggregation env db resolved_id of
                Inl e \<Rightarrow> \<lparr>ended = Inr 1, datastore = db, printed = []\<rparr>
              | Inr sources \<Rightarrow>
                  (case find (\<lambda>d. d_id d = resolved_id) (Datasheet db) of
                     None \<Rightarrow> \<lparr>ended = Inr 1, datastore = db, printed = []\<rparr>
                   | Some datasheet_row \<Rightarrow>
                       let valid_sources = sources;
                           report = [''Valid sources: '' @ str_of_nat (length sources)]
                       in
                         if valid_sources = [] then
                           \<lparr>ended = Inr 0, datastore = db,
                            printed = report @ [''No valid sources to aggregate'']\<rparr>
                         else
                           (case synthesize env datasheet_row valid_sources of
                              SynthesisRaised e \<Rightarrow>
                                \<lparr>ended = Inl e, datastore = db, printed = report\<rparr>
                            | SynthesisFailed e \<Rightarrow>
                                \<lparr>ended = Inr 1, datastore = db, printed = report\<rparr>
                            | Synthesized aggregated \<Rightarrow>
                                (case db_upsert_datasheet_competitive_context env db resolved_id
                                        faction_id detachment_id
                                        (aggregated_context_data aggregated
                                           (length valid_sources)) of
                                   Inl e \<Rightarrow> \<lparr>ended = Inr 0, datastore = db, printed = report\<rparr>
                                 | Inr db' \<Rightarrow>
                                     \<lparr>ended = Inr 0, datastore = db', printed = report\<rparr>))))))"

subsection \<open>The pipeline commands of main (lines 3008-3051)\<close>




subsection \<open>Reading the link table\<close>

text \<open>
  Notions used to state the properties of the link table: the datasheet id the statement
  of a link stores (none when the link has no id or the datastore refuses it); one
  statement of db\_create\_datasheet\_links on such a link; a row carrying the score, the count and
  the summary a link gives; the effect of a conflicting statement on one row; and a row
  with the time of its last update blanked.
\<close>

definition link_datasheet_id :: "pipeline_env \<Rightarrow> dict \<Rightarrow> ident option" where
  "link_datasheet_id env link =
     (case map_of link ''datasheetId'' of
        None \<Rightarrow> None
      | Some v \<Rightarrow> datasheet_id_column env v)"

definition upsert_link :: "pipeline_env \<Rightarrow> ident \<Rightarrow> database \<Rightarrow> dict \<Rightarrow> database" where
  "upsert_link env source_id db link =
     (case link_datasheet_id env link of
        None \<Rightarrow> db
      | Some datasheet_id \<Rightarrow>
          insert_on_conflict_update env db datasheet_id source_id
            (dict_get link ''relevanceScore'' (JFloat (1 / 2)))
            (dict_get link ''mentionCount'' (JInt 1))
            (dict_get link ''mentionSummary'' (JStr [])))"

definition carries :: "datasheet_source \<Rightarrow> dict \<Rightarrow> bool" where
  "carries r link =
     (ds_relevanceScore r = dict_get link ''relevanceScore'' (JFloat (1 / 2)) \<and>
      ds_mentionCount r = dict_get link ''mentionCount'' (JInt 1) \<and>
      ds_mentionSummary r = dict_get link ''mentionSummary'' (JStr []))"

definition apply_link ::
  "pipeline_env \<Rightarrow> ident \<Rightarrow> datasheet_source \<Rightarrow> dict \<Rightarrow> datasheet_source" where
  "apply_link env source_id r link =
     (if map_option (\<lambda>d. (d, source_id)) (link_datasheet_id env link) = Some (link_key r)
      then r\<lparr>ds_relevanceScore := dict_get link ''relevanceScore'' (JFloat (1 / 2)),
             ds_mentionCount := dict_get link ''mentionCount'' (JInt 1),
             ds_mentionSummary := dict_get link ''mentionSummary'' (JStr []),
             ds_updatedAt := clock_now env\<rparr>
      else r)"

definition untimed :: "datasheet_source \<Rightarrow> datasheet_source" where
  "untimed r = r\<lparr>ds_updatedAt := 0\<rparr>"

subsection \<open>Reading the curation phase\<close>


subsection \<open>Reading the extraction loop\<close>

text \<open>
  The test of line 2835 on the reply for a link, and the effect of one round of the loop
  of extract\_pending\_links on one row of the link table.
\<close>

definition reports_unit :: "pipeline_env \<Rightarrow> pending_link \<Rightarrow> bool" where
  "reports_unit env link =
     (let result = extract_unit_context env link in
      truthy (dict_get result ''success'' JNull) \<and> truthy (dict_get result ''found'' JNull))"

definition extract_row ::
  "pipeline_env \<Rightarrow> datasheet_source \<Rightarrow> pending_link \<Rightarrow> datasheet_source" where
  "extract_row env r link =
     (if ds_id r = pl_id link then
        (let result = extract_unit_context env link in
         if reports_unit env link then
           (case dict_get result ''context'' (JDict []) of
              JDict context_fields \<Rightarrow>
                store_extraction (clock_now env) (JDict result)
                  (dict_get context_fields ''confidence'' (JInt 50)) ''extracted'' r
            | _ \<Rightarrow> r)
         else store_extraction (clock_now env) not_found_context (JInt 0) ''extracted'' r)
      else r)"

text \<open>A link stored as extracted with the not-found context and confidence 0.\<close>

definition stored_not_found :: "datasheet_source \<Rightarrow> bool" where
  "stored_not_found r =
     (ds_status r = ''extracted'' \<and> ds_extractedContext r = Some not_found_context \<and>
      ds_confidence r = Some (JInt 0))"

subsection \<open>Example data\<close>

text \<open>
  A configured environment and a small datastore: one faction with two datasheets and
  one curated source that two pending links point to. The model finds the first unit in
  the source and does not find the second.
\<close>

definition demo_uuid :: "nat \<Rightarrow> ident" where
  "demo_uuid n = ''uuid-'' @ str_of_nat n"

fun demo_acquire :: "bool \<Rightarrow> competitive_source \<Rightarrow> string + dict" where
  "demo_acquire no_whisper source = Inl ''Scraping failed''"

fun demo_curation :: "competitive_source \<Rightarrow> datasheet list \<Rightarrow> string + string" where
  "demo_curation source datasheets = Inl ''Gemini API error 503''"

fun demo_loads :: "string \<Rightarrow> string + json" where
  "demo_loads s = Inl ''Expecting value''"

fun demo_reply :: "json \<Rightarrow> string \<Rightarrow> string \<Rightarrow> json \<Rightarrow> extraction" where
  "demo_reply transcript unit_name faction title =
     (if unit_name = ''Intercessors''
      then UnitContext [(''unitName'', JStr unit_name)]
             [(''tierRank'', JStr ''A''), (''confidence'', JInt 80)]
      else UnitNotFound ''not found in the transcript'')"

fun demo_aggregate :: "datasheet \<Rightarrow> dict list \<Rightarrow> synthesis" where
  "demo_aggregate d sources = Synthesized [(''competitiveTier'', JStr ''A'')]"

text \<open>A text column for the ids, and the folding of the letters A to Z.\<close>

fun demo_column :: "json \<Rightarrow> ident option" where
  "demo_column (JStr s) = Some s"
| "demo_column (JInt n) = (if 0 \<le> n then Some (str_of_nat (nat n)) else None)"
| "demo_column v = None"

definition lower_char :: "char \<Rightarrow> char" where
  "lower_char c =
     (let n = (of_char c :: nat) in if 65 \<le> n \<and> n \<le> 90 then char_of (n + 32) else c)"

definition demo_env :: pipeline_env where
  "demo_env =
     \<lparr>GOOGLE_API_KEY = Some ''key'',
      HAS_PSYCOPG2 = True,
      DATABASE_URL = Some ''postgresql://db'',
      connect_succeeds = True,
      clock_now = 100,
      gen_random_uuid = demo_uuid,
      acquire_content = demo_acquire,
      gemini_curation = demo_curation,
      strict_json_loads = demo_loads,
      unit_context_reply = demo_reply,
      synthesize = demo_aggregate,
      datasheet_id_column = demo_column,
      sql_lower = map lower_char\<rparr>"

definition later_env :: pipeline_env where
  "later_env = demo_env\<lparr>clock_now := 200\<rparr>"



definition demo_source :: competitive_source where
  "demo_source =
     \<lparr>cs_id = ''src-1'', cs_sourceType = ''youtube'', cs_status = ''curated'',
      cs_factionId = Some ''faction-1'', cs_createdAt = 1, cs_updatedAt = 5,
      cs_columns = [(''content'', JStr ''Intercessors are great this season''),
                    (''contentTitle'', JStr ''Tier list'')]\<rparr>"

definition demo_link :: "ident \<Rightarrow> ident \<Rightarrow> timestamp \<Rightarrow> datasheet_source" where
  "demo_link link_id datasheet_id t =
     \<lparr>ds_id = link_id, ds_datasheetId = datasheet_id, ds_competitiveSourceId = ''src-1'',
      ds_relevanceScore = JFloat (1 / 2), ds_mentionCount = JInt 1,
      ds_mentionSummary = JStr [], ds_status = ''pending'', ds_extractedContext = None,
      ds_confidence = None, ds_isOutdated = False, ds_createdAt = t, ds_updatedAt = t,
      ds_extractedAt = None\<rparr>"

definition demo_db :: database where
  "demo_db =
     \<lparr>CompetitiveSource = [demo_source],
      Datasheet =
        [\<lparr>d_id = ''unit-1'', d_name = ''Intercessors'', d_faction = ''Space Marines'',
          d_factionId = Some ''faction-1'', d_isEnabled = True\<rparr>,
         \<lparr>d_id = ''unit-2'', d_name = ''Hellblasters'', d_faction = ''Space Marines'',
          d_factionId = Some ''faction-1'', d_isEnabled = True\<rparr>],
      DatasheetSource = [demo_link ''link-1'' ''unit-1'' 10, demo_link ''link-2'' ''unit-2'' 11],
      DatasheetCompetitiveContext = [],
      uuid_draws = 0\<rparr>"


text \<open>The two rows the query for pending links returns on this datastore.\<close>

definition demo_pending :: "ident \<Rightarrow> ident \<Rightarrow> string \<Rightarrow> pending_link" where
  "demo_pending link_id datasheet_id unit_name =
     \<lparr>pl_id = link_id, pl_datasheetId = datasheet_id, pl_sourceId = ''src-1'',
      pl_datasheetName = unit_name, pl_faction = ''Space Marines'',
      pl_content = JStr ''Intercessors are great this season'',
      pl_contentTitle = JStr ''Tier list''\<rparr>"

text \<open>The links a repeated curation of the source writes: one known pair, one new.\<close>

definition demo_links :: "dict list" where
  "demo_links =
     [[(''datasheetId'', JStr ''unit-1''), (''relevanceScore'', JFloat (4 / 5)),
       (''mentionCount'', JInt 5), (''mentionSummary'', JStr ''Strong'')],
      [(''datasheetId'', JStr ''unit-3''), (''relevanceScore'', JFloat (1 / 5)),
       (''mentionCount'', JInt 1), (''mentionSummary'', JStr ''Brief'')]]"

section \<open>Part II: properties\<close>

subsection \<open>String operations\<close>

lemma startswith_iff: "startswith s p \<longleftrightarrow> (\<exists>t. s = p @ t)"
  by (induction s p rule: startswith.induct) auto

lemma str_contains_iff: "str_contains sub s \<longleftrightarrow> (\<exists>a b. s = a @ sub @ b)"
proof (induction s)
  case Nil
  then show ?case by auto
next
  case (Cons c cs)
  show ?case
  proof
    assume "str_contains sub (c # cs)"
    then consider "startswith (c # cs) sub" | "str_contains sub cs" by auto
    then show "\<exists>a b. c # cs = a @ sub @ b"
    proof cases
      case 1
      then obtain t where "c # cs = sub @ t" by (auto simp: startswith_iff)
      then have "c # cs = [] @ sub @ t" by simp
      then show ?thesis by blast
    next
      case 2
      then obtain a b where "cs = a @ sub @ b" using Cons.IH by blast
      then have "c # cs = (c # a) @ sub @ b" by simp
      then show ?thesis by blast
    qed
  next
    assume "\<exists>a b. c # cs = a @ sub @ b"
    then obtain a b where ab: "c # cs = a @ sub @ b" by blast
    show "str_contains sub (c # cs)"
    proof (cases a)
      case Nil
      then have "startswith (c # cs) sub" using ab by (metis startswith_iff append_Nil)
      then show ?thesis by simp
    next
      case (Cons a0 as)
      then have "cs = as @ sub @ b" using ab by simp
      then show ?thesis using Cons.IH by auto
    qed
  qed
qed

lemma rstrip_snoc: "\<not> py_isspace c \<Longrightarrow> rstrip (xs @ [c]) = xs @ [c]"
  by (simp add: rstrip_def)

lemma endswith_snoc: "endswith (xs @ [c]) [d] = (c = d)"
  by (simp add: endswith_def)

subsection \<open>The scan of repair\_truncated\_json\<close>

lemma lex_of_scan_char: "lex_of (scan_char s i c) = lex_char (lex_of s) c"
  by (simp add: lex_of_def scan_char_def lex_char_def Let_def)

lemma last_scan_char:
  "last_complete_brace (scan_char s i c) =
     (if closes_here (lex_of s) c then int i else last_complete_brace s)"
  by (auto simp: lex_of_def scan_char_def closes_here_def Let_def)

text \<open>A backslash in front of a quote keeps the string mode as it was.\<close>

lemma escaped_quote_keeps_mode:
  "\<not> escape_next s \<Longrightarrow>
   in_string (scan_char (scan_char s i BACKSLASH) (Suc i) DQUOTE) = in_string s"
  by (simp add: scan_char_def)

lemma quoted_brace_is_skipped:
  "\<not> escape_next s \<Longrightarrow> in_string s \<Longrightarrow> c \<noteq> BACKSLASH \<Longrightarrow> c \<noteq> DQUOTE \<Longrightarrow>
   scan_char s i c = s"
  by (simp add: scan_char_def)

lemma closers_from_Nil: "closers_from l [] = []"
  by (simp add: closers_from_def)

lemma closers_from_Cons:
  "closers_from l (c # cs) =
     (if closes_here l c then [0] else []) @ map Suc (closers_from (lex_char l c) cs)"
proof -
  have upt: "[0..<length (c # cs)] = 0 # map Suc [0..<length cs]"
    by (simp add: upt_conv_Cons map_Suc_upt del: upt_Suc)
  show ?thesis
    unfolding closers_from_def upt
    by (simp add: filter_map comp_def)
qed

lemma nested_closers_eq: "nested_closers text = closers_from lex_init text"
  unfolding nested_closers_def closers_from_def
  by (rule filter_cong) (auto simp: closes_nested_def lex_prefix_def)

text \<open>
  The loop invariant, read at the end of the loop: the variable holds the last closing
  position of the text scanned so far, shifted by the index the scan started at, or its
  initial value when there was none.
\<close>

lemma scan_loop_last:
  "last_complete_brace (scan_loop s i cs) =
     (if closers_from (lex_of s) cs = [] then last_complete_brace s
      else int (i + last (closers_from (lex_of s) cs)))"
proof (induction cs arbitrary: s i)
  case Nil
  then show ?case by (simp add: closers_from_Nil)
next
  case (Cons c cs)
  let ?rest = "closers_from (lex_char (lex_of s) c) cs"
  show ?case
  proof (cases "?rest = []")
    case True
    then show ?thesis
      by (simp add: Cons.IH lex_of_scan_char last_scan_char closers_from_Cons)
  next
    case False
    then show ?thesis
      by (simp add: Cons.IH lex_of_scan_char last_scan_char closers_from_Cons last_map)
  qed
qed

lemma nested_closers_bound:
  "k \<in> set (nested_closers text) \<Longrightarrow> k < length text \<and> text ! k = CHR ''}''"
  by (auto simp: nested_closers_def closes_nested_def closes_here_def)

lemma scan_result:
  "last_complete_brace (scan_loop scan_init 0 text) =
     (if nested_closers text = [] then -1 else int (last (nested_closers text)))"
proof -
  have "lex_of scan_init = lex_init"
    by (simp add: lex_of_def scan_init_def lex_init_def)
  then show ?thesis
    by (simp add: scan_loop_last nested_closers_eq scan_init_def)
qed

lemma not_space_brace: "\<not> py_isspace (CHR ''}'')"
  by (simp add: py_isspace_def)

text \<open>
  The text cut after a \<^verbatim>\<open>}\<close> ends with that brace, so \<^verbatim>\<open>rstrip\<close> changes nothing, the
  test for a trailing brace succeeds and the test for a trailing comma fails: the closing
  fragment is appended to the cut text as it is.
\<close>

lemma repair_shape:
  assumes "k < length text" "text ! k = CHR ''}''"
  shows "(let repaired = slice_to text (int k + 1) in
          if endswith (rstrip repaired) ''}'' then
            let repaired = rstrip repaired;
                repaired = (if endswith repaired '','' then butlast repaired else repaired)
            in Some (repaired @ closing_fragment)
          else Some repaired) = Some (take (Suc k) text @ closing_fragment)"
proof -
  have sl: "slice_to text (int k + 1) = take k text @ [CHR ''}'']"
    using assms by (simp add: slice_to_def nat_add_distrib take_Suc_conv_app_nth)
  have tk: "take (Suc k) text = take k text @ [CHR ''}'']"
    using assms by (simp add: take_Suc_conv_app_nth)
  show ?thesis
    unfolding sl tk Let_def
    by (simp only: rstrip_snoc[OF not_space_brace] endswith_snoc) simp
qed

lemma repair_truncated_json_characterised:
  "repair_truncated_json text =
     (if str_contains mentionedUnits_key text \<and> nested_closers text \<noteq> []
      then Some (take (Suc (last (nested_closers text))) text @ closing_fragment)
      else None)"
proof (cases "nested_closers text = []")
  case True
  then show ?thesis by (simp add: repair_truncated_json_def scan_result)
next
  case False
  then have "last (nested_closers text) \<in> set (nested_closers text)" by simp
  then have b: "last (nested_closers text) < length text"
    "text ! last (nested_closers text) = CHR ''}''"
    using nested_closers_bound by blast+
  show ?thesis
    using False repair_shape[OF b]
    by (simp add: repair_truncated_json_def scan_result Let_def)
qed

lemma truncated_response_closers: "nested_closers truncated_response = [38]"
  by code_simp

lemma truncated_response_has_key: "str_contains mentionedUnits_key truncated_response"
  by code_simp

lemma truncated_other_closers: "nested_closers truncated_other = [18]"
  by code_simp

lemma truncated_other_lacks_key: "\<not> str_contains mentionedUnits_key truncated_other"
  by code_simp

text \<open>
  C1 (as stated): on every text that the strict parser rejects, the repair cuts the text
  after the last nested closing brace and appends the closing fragment, and returns
  nothing only when there is no such brace. The statement fails on a truncated document
  that has a nested closing brace (at offset 18) but not the key
  \<^verbatim>\<open>"mentionedUnits"\<close>: the repair returns nothing there.
\<close>

theorem repair_ignores_key_counterexample:
  "nested_closers truncated_other = [18] \<and>
   repair_truncated_json truncated_other = None \<and>
   repair_truncated_json truncated_other \<noteq>
     (if nested_closers truncated_other = [] then None
      else Some (take (Suc (last (nested_closers truncated_other))) truncated_other
                 @ closing_fragment))"
  by code_simp

text \<open>
  C1 (amended): let the strict parser reject the text. If the text contains the key
  \<^verbatim>\<open>"mentionedUnits"\<close> and has a closing brace that closes an object nested in the
  top-level one (found by a scan that skips quoted strings and escaped characters), the
  repair returns the text cut after the last such brace followed by the closing fragment
  \<^verbatim>\<open>], "unmatchedMentions": []}\<close>; there is never a trailing comma to strip at that
  cut. Otherwise the repair returns nothing, and the decoding step then raises the
  error of the first parse.
\<close>

theorem repair_truncated_json_amended:
  assumes "json_loads text = Inl e"
  shows "repair_truncated_json text =
           (if str_contains mentionedUnits_key text \<and> nested_closers text \<noteq> []
            then Some (take (Suc (last (nested_closers text))) text @ closing_fragment)
            else None) \<and>
         (repair_truncated_json text = None \<longrightarrow>
            curation_json_decode json_loads text = Inl e)"
  using assms
  by (simp add: repair_truncated_json_characterised curation_json_decode_def)

theorem repair_truncated_json_amended_witness:
  "accepts_only repaired_response truncated_response = Inl ''Expecting value'' \<and>
   repair_truncated_json truncated_response = Some repaired_response \<and>
   curation_json_decode (accepts_only repaired_response) truncated_response
     = Inr repaired_response"
proof -
  have rejected: "accepts_only repaired_response truncated_response = Inl ''Expecting value''"
    by code_simp
  have cut: "take 39 truncated_response @ closing_fragment = repaired_response"
    by code_simp
  have repaired: "repair_truncated_json truncated_response = Some repaired_response"
    using repair_truncated_json_amended
            [of "accepts_only repaired_response" truncated_response "''Expecting value''"]
          rejected
    by (simp add: truncated_response_closers truncated_response_has_key cut)
  have nonempty: "repaired_response \<noteq> []"
    by code_simp
  show ?thesis
    using rejected repaired nonempty
    by (simp add: curation_json_decode_def accepts_only_def)
qed

text \<open>
  C10: a text that does not contain the literal \<^verbatim>\<open>"mentionedUnits"\<close> (quotes included)
  as a substring gets no repair, whatever braces it holds.
\<close>

theorem repair_requires_key:
  assumes "\<not> (\<exists>a b. text = a @ mentionedUnits_key @ b)"
  shows "repair_truncated_json text = None"
  using assms by (simp add: repair_truncated_json_def str_contains_iff)

theorem repair_requires_key_witness:
  "\<not> (\<exists>a b. truncated_other = a @ mentionedUnits_key @ b) \<and>
   nested_closers truncated_other \<noteq> [] \<and>
   repair_truncated_json truncated_other = None"
proof -
  have no_key: "\<not> (\<exists>a b. truncated_other = a @ mentionedUnits_key @ b)"
    using truncated_other_lacks_key by (simp add: str_contains_iff)
  show ?thesis
    using no_key repair_requires_key[OF no_key]
    by (simp add: truncated_other_closers)
qed

text \<open>
  C2: on a text the strict parser accepts, the decoding step returns the parser's result:
  the repair is reached only through the branch of a failed first parse.
\<close>

theorem decode_agrees_with_strict_parser:
  assumes "json_loads text = Inr document"
  shows "curation_json_decode json_loads text = json_loads text"
  using assms by (simp add: curation_json_decode_def)

theorem decode_agrees_with_strict_parser_witness:
  "accepts_only repaired_response repaired_response = Inr repaired_response \<and>
   curation_json_decode (accepts_only repaired_response) repaired_response
     = Inr repaired_response"
proof -
  have accepted: "accepts_only repaired_response repaired_response = Inr repaired_response"
    by (simp add: accepts_only_def)
  show ?thesis
    using accepted
      decode_agrees_with_strict_parser
        [of "accepts_only repaired_response" repaired_response repaired_response]
    by simp
qed

subsection \<open>The retry wrapper\<close>

lemma upt_three: "[0..<3] = [0, 1, 2::nat]"
  by code_simp

text \<open>A response is returned at once, whatever its status code: no wait, one request.\<close>

lemma retry_returns_first_response:
  "transport 0 = Inr response \<Longrightarrow>
   requests_with_retry transport default_max_retries =
     \<lparr>returned = Inr (Some response), slept = [], requests_made = 1\<rparr>"
  by (simp add: requests_with_retry_def default_max_retries_def upt_three)

text \<open>
  With the default of 3 the function sends at most three requests and waits at most
  twice, 1 second and then 2 seconds: the wait of 4 seconds is never reached.
\<close>

lemma retry_default_bounds:
  "slept (requests_with_retry transport default_max_retries) \<in> {[], [1], [1, 2]} \<and>
   requests_made (requests_with_retry transport default_max_retries) \<le> 3"
  by (simp add: requests_with_retry_def default_max_retries_def upt_three split: sum.splits)

text \<open>
  C3: a connection-level failure is retried up to 3 times with waits of 1s, 2s and 4s
  before the last failure propagates. On a transport whose every request fails with a
  connection error the function sends three requests in all (two retries), waits 1s and
  2s, and raises after the third request without a third wait. The comment of line 111
  (\<^verbatim>\<open># 1, 2, 4 seconds\<close>) and the parameter name \<^verbatim>\<open>max_retries\<close> state what the claim
  states; the loop \<^verbatim>\<open>range(max_retries)\<close> with the test
  \<^verbatim>\<open>attempt < max_retries - 1\<close> stops one round earlier.
\<close>

theorem retry_stops_after_two_waits:
  "requests_with_retry always_reset default_max_retries =
     \<lparr>returned = Inl (ConnectionError ''Connection reset by peer''),
      slept = [1, 2], requests_made = 3\<rparr>"
  by (simp add: requests_with_retry_def default_max_retries_def always_reset_def upt_three)

subsection \<open>Compression of a chunk\<close>





subsection \<open>Chunked transcription\<close>











subsection \<open>The link table: one row for each pair\<close>

lemma link_datasheet_id_Some:
  "link_datasheet_id env l = Some d \<Longrightarrow>
   \<exists>v. map_of l ''datasheetId'' = Some v \<and> datasheet_id_column env v = Some d"
  by (auto simp: link_datasheet_id_def split: option.splits)

lemma link_datasheet_id_schema:
  "datasheet_id_column env' = datasheet_id_column env \<Longrightarrow>
   link_datasheet_id env' l = link_datasheet_id env l"
  by (simp only: link_datasheet_id_def)

lemma create_links_loop_foldl:
  "\<forall>l \<in> set links. link_datasheet_id env l \<noteq> None \<Longrightarrow>
   create_links_loop env source_id links db = (None, foldl (upsert_link env source_id) db links)"
proof (induction links arbitrary: db)
  case Nil
  then show ?case by simp
next
  case (Cons l ls)
  then obtain d where d: "link_datasheet_id env l = Some d" by auto
  from link_datasheet_id_Some[OF d] obtain v where
    m: "map_of l ''datasheetId'' = Some v" "datasheet_id_column env v = Some d" by blast
  show ?case
    using Cons d m by (simp add: upsert_link_def)
qed

lemma link_key_update:
  "link_key (r\<lparr>ds_relevanceScore := a, ds_mentionCount := b, ds_mentionSummary := c,
               ds_updatedAt := t\<rparr>) = link_key r"
  by (simp add: link_key_def)

lemma keys_conflict_update:
  "map link_key
     (map (\<lambda>r. if link_key r = k
                then r\<lparr>ds_relevanceScore := a, ds_mentionCount := b, ds_mentionSummary := c,
                       ds_updatedAt := t\<rparr>
                else r) rows) = map link_key rows"
  by (induction rows) (simp_all add: link_key_update)

lemma keys_insert_on_conflict_update:
  "map link_key (DatasheetSource
      (insert_on_conflict_update env db d source_id score mentions summary)) =
     (if (d, source_id) \<in> set (map link_key (DatasheetSource db))
      then map link_key (DatasheetSource db)
      else map link_key (DatasheetSource db) @ [(d, source_id)])"
  unfolding insert_on_conflict_update_def Let_def
  by (simp add: keys_conflict_update) (simp add: link_key_def)

lemma distinct_insert_on_conflict_update:
  "distinct (map link_key (DatasheetSource db)) \<Longrightarrow>
   distinct (map link_key (DatasheetSource
      (insert_on_conflict_update env db d source_id score mentions summary)))"
  by (simp add: keys_insert_on_conflict_update)

lemma keys_upsert_link:
  "link_datasheet_id env link = Some d \<Longrightarrow>
   map link_key (DatasheetSource (upsert_link env source_id db link)) =
     (if (d, source_id) \<in> set (map link_key (DatasheetSource db))
      then map link_key (DatasheetSource db)
      else map link_key (DatasheetSource db) @ [(d, source_id)])"
  by (simp add: upsert_link_def keys_insert_on_conflict_update)

lemma keys_upsert_link_None:
  "link_datasheet_id env link = None \<Longrightarrow> upsert_link env source_id db link = db"
  by (simp add: upsert_link_def)

lemma distinct_create_links_loop:
  "distinct (map link_key (DatasheetSource db)) \<Longrightarrow>
   distinct (map link_key (DatasheetSource (snd (create_links_loop env source_id links db))))"
proof (induction links arbitrary: db)
  case Nil
  then show ?case by simp
next
  case (Cons l ls)
  show ?case
  proof (cases "map_of l ''datasheetId''")
    case None
    then show ?thesis using Cons.prems by simp
  next
    case (Some v)
    show ?thesis
    proof (cases "datasheet_id_column env v")
      case None
      with Some show ?thesis using Cons.prems by simp
    next
      case (Some d)
      with \<open>map_of l ''datasheetId'' = Some v\<close> show ?thesis
        using Cons.IH[OF distinct_insert_on_conflict_update[OF Cons.prems]] by simp
    qed
  qed
qed

lemma distinct_db_create_datasheet_links:
  "distinct (map link_key (DatasheetSource db)) \<Longrightarrow>
   distinct (map link_key (DatasheetSource (snd (db_create_datasheet_links env db source_id links))))"
  by (auto simp: db_create_datasheet_links_def distinct_create_links_loop split: sum.splits)

lemma link_key_apply_link: "link_key (apply_link env source_id r link) = link_key r"
  by (simp add: apply_link_def link_key_def)

lemma link_key_foldl_apply_link:
  "link_key (foldl (apply_link env source_id) r links) = link_key r"
  by (induction links arbitrary: r) (simp_all add: link_key_apply_link)

lemma upsert_link_present:
  assumes "link_datasheet_id env link = Some d"
      and "(d, source_id) \<in> set (map link_key (DatasheetSource db))"
  shows "DatasheetSource (upsert_link env source_id db link) =
           map (\<lambda>r. apply_link env source_id r link) (DatasheetSource db)"
  using assms
  by (auto simp: upsert_link_def insert_on_conflict_update_def Let_def apply_link_def)

text \<open>
  One statement seen row by row: every row that was there is still there, at its place,
  changed by the link when the link names it; at most one row is added.
\<close>

lemma upsert_link_rows:
  "\<exists>extra. DatasheetSource (upsert_link env source_id db link) =
      map (\<lambda>r. apply_link env source_id r link) (DatasheetSource db) @ extra"
proof (cases "link_datasheet_id env link")
  case None
  then show ?thesis
    by (simp add: keys_upsert_link_None apply_link_def)
next
  case (Some d)
  show ?thesis
  proof (cases "(d, source_id) \<in> set (map link_key (DatasheetSource db))")
    case True
    then show ?thesis
      using upsert_link_present[OF Some True] by simp
  next
    case False
    then have "map (\<lambda>r. apply_link env source_id r link) (DatasheetSource db) =
               DatasheetSource db"
      using Some by (intro map_idI) (auto simp: apply_link_def)
    then show ?thesis
      using Some False
      by (simp add: upsert_link_def insert_on_conflict_update_def Let_def)
  qed
qed

lemma foldl_upsert_rows:
  "\<exists>extra. DatasheetSource (foldl (upsert_link env source_id) db links) =
      map (\<lambda>r. foldl (apply_link env source_id) r links) (DatasheetSource db) @ extra"
proof (induction links arbitrary: db)
  case Nil
  then show ?case by simp
next
  case (Cons l ls)
  obtain one where one: "DatasheetSource (upsert_link env source_id db l) =
      map (\<lambda>r. apply_link env source_id r l) (DatasheetSource db) @ one"
    using upsert_link_rows by blast
  obtain more where more:
    "DatasheetSource (foldl (upsert_link env source_id) (upsert_link env source_id db l) ls) =
      map (\<lambda>r. foldl (apply_link env source_id) r ls)
        (DatasheetSource (upsert_link env source_id db l)) @ more"
    using Cons.IH by blast
  show ?case
    unfolding foldl_Cons more one by (simp add: comp_def)
qed

lemma foldl_upsert_member:
  "r \<in> set (DatasheetSource db) \<Longrightarrow>
   foldl (apply_link env source_id) r links \<in>
     set (DatasheetSource (foldl (upsert_link env source_id) db links))"
  using foldl_upsert_rows[of env source_id db links] by auto

lemma foldl_apply_link_unnamed:
  "\<forall>l \<in> set links. map_option (\<lambda>d. (d, source_id)) (link_datasheet_id env l) \<noteq> Some (link_key r)
   \<Longrightarrow> foldl (apply_link env source_id) r links = r"
  by (induction links) (auto simp: apply_link_def)

lemma keys_upsert_link_mono:
  "k \<in> set (map link_key (DatasheetSource db)) \<Longrightarrow>
   k \<in> set (map link_key (DatasheetSource (upsert_link env source_id db link)))"
  by (cases "link_datasheet_id env link") (auto simp: keys_upsert_link keys_upsert_link_None)

lemma keys_foldl_upsert_mono:
  "k \<in> set (map link_key (DatasheetSource db)) \<Longrightarrow>
   k \<in> set (map link_key (DatasheetSource (foldl (upsert_link env source_id) db links)))"
proof (induction links arbitrary: db)
  case Nil
  then show ?case by simp
next
  case (Cons l ls)
  from Cons.IH[OF keys_upsert_link_mono[OF Cons.prems]] show ?case by simp
qed

lemma keys_foldl_upsert_links:
  "l \<in> set links \<Longrightarrow> link_datasheet_id env l = Some d \<Longrightarrow>
   (d, source_id) \<in> set (map link_key (DatasheetSource (foldl (upsert_link env source_id) db links)))"
proof (induction links arbitrary: db)
  case Nil
  then show ?case by simp
next
  case (Cons x xs)
  show ?case
  proof (cases "l = x")
    case True
    then have "(d, source_id) \<in> set (map link_key (DatasheetSource (upsert_link env source_id db x)))"
      using Cons.prems(2) by (simp add: keys_upsert_link)
    then show ?thesis
      using keys_foldl_upsert_mono by simp
  next
    case False
    then have "l \<in> set xs" using Cons.prems(1) by simp
    from Cons.IH[OF this Cons.prems(2)] show ?thesis by simp
  qed
qed

lemma foldl_upsert_present:
  assumes "\<forall>l \<in> set links. \<exists>d. link_datasheet_id env l = Some d \<and>
             (d, source_id) \<in> set (map link_key (DatasheetSource db))"
  shows "DatasheetSource (foldl (upsert_link env source_id) db links) =
           map (\<lambda>r. foldl (apply_link env source_id) r links) (DatasheetSource db)"
  using assms
proof (induction links arbitrary: db)
  case Nil
  then show ?case by simp
next
  case (Cons l ls)
  then obtain d where d: "link_datasheet_id env l = Some d"
    and here: "(d, source_id) \<in> set (map link_key (DatasheetSource db))" by auto
  have rest: "\<forall>l' \<in> set ls. \<exists>d'. link_datasheet_id env l' = Some d' \<and>
      (d', source_id) \<in> set (map link_key (DatasheetSource (upsert_link env source_id db l)))"
    using Cons.prems keys_upsert_link_mono by fastforce
  show ?case
    using Cons.IH[OF rest] by (simp add: upsert_link_present[OF d here] comp_def)
qed

lemma rows_upsert_link:
  assumes "link_datasheet_id env link = Some d"
      and "r \<in> set (DatasheetSource (upsert_link env source_id db link))"
  shows "(link_key r = (d, source_id) \<and> carries r link) \<or>
         (link_key r \<noteq> (d, source_id) \<and> r \<in> set (DatasheetSource db))"
  using assms
  by (auto simp: upsert_link_def insert_on_conflict_update_def Let_def carries_def link_key_def
      split: if_splits)

lemma upsert_link_row:
  assumes "link_datasheet_id env link = Some d"
  shows "\<exists>r \<in> set (DatasheetSource (upsert_link env source_id db link)).
           link_key r = (d, source_id) \<and> carries r link"
proof -
  have "(d, source_id) \<in> set (map link_key (DatasheetSource (upsert_link env source_id db link)))"
    using assms by (simp add: keys_upsert_link)
  then obtain r where r: "r \<in> set (DatasheetSource (upsert_link env source_id db link))"
    "link_key r = (d, source_id)" by auto
  from rows_upsert_link[OF assms r(1)] r(2) have "carries r link" by simp
  with r show ?thesis by blast
qed

lemma foldl_apply_link_absorbed:
  "(foldl (apply_link env source_id) r links)
     \<lparr>ds_relevanceScore := a, ds_mentionCount := b, ds_mentionSummary := c, ds_updatedAt := u\<rparr>
   = r\<lparr>ds_relevanceScore := a, ds_mentionCount := b, ds_mentionSummary := c, ds_updatedAt := u\<rparr>"
proof (induction links arbitrary: r)
  case Nil
  then show ?case by simp
next
  case (Cons l ls)
  show ?case
    by (simp add: Cons.IH) (simp add: apply_link_def)
qed

text \<open>The last link that names a row decides what the row carries.\<close>

lemma foldl_apply_link_last:
  assumes named: "link_datasheet_id env l = Some d" "link_key r = (d, source_id)"
      and later: "\<forall>l' \<in> set post. link_datasheet_id env l' \<noteq> Some d"
  shows "foldl (apply_link env source_id) r (pre @ l # post) =
           r\<lparr>ds_relevanceScore := dict_get l ''relevanceScore'' (JFloat (1 / 2)),
             ds_mentionCount := dict_get l ''mentionCount'' (JInt 1),
             ds_mentionSummary := dict_get l ''mentionSummary'' (JStr []),
             ds_updatedAt := clock_now env\<rparr>"
proof -
  let ?r1 = "foldl (apply_link env source_id) r pre"
  have key1: "link_key ?r1 = (d, source_id)"
    using named(2) by (simp add: link_key_foldl_apply_link)
  have hit: "apply_link env source_id ?r1 l =
      ?r1\<lparr>ds_relevanceScore := dict_get l ''relevanceScore'' (JFloat (1 / 2)),
          ds_mentionCount := dict_get l ''mentionCount'' (JInt 1),
          ds_mentionSummary := dict_get l ''mentionSummary'' (JStr []),
          ds_updatedAt := clock_now env\<rparr>"
    using named(1) key1 by (simp add: apply_link_def)
  have key2: "link_key (apply_link env source_id ?r1 l) = (d, source_id)"
    using key1 by (simp add: link_key_apply_link)
  have "foldl (apply_link env source_id) (apply_link env source_id ?r1 l) post =
        apply_link env source_id ?r1 l"
  proof (rule foldl_apply_link_unnamed)
    show "\<forall>l' \<in> set post. map_option (\<lambda>d. (d, source_id)) (link_datasheet_id env l') \<noteq>
            Some (link_key (apply_link env source_id ?r1 l))"
      using later key2 by (auto simp: map_option_case split: option.splits)
  qed
  then show ?thesis
    by (simp add: hit foldl_apply_link_absorbed)
qed

lemma rerun_row:
  "r \<in> set (DatasheetSource (foldl (upsert_link env source_id) db links)) \<Longrightarrow>
   datasheet_id_column env' = datasheet_id_column env \<Longrightarrow>
   untimed (foldl (apply_link env' source_id) r links) = untimed r"
proof (induction links arbitrary: r rule: rev_induct)
  case Nil
  then show ?case by simp
next
  case (snoc l ls)
  let ?db = "foldl (upsert_link env source_id) db ls"
  have same: "link_datasheet_id env' l = link_datasheet_id env l"
    using snoc.prems(2) by (rule link_datasheet_id_schema)
  have r: "r \<in> set (DatasheetSource (upsert_link env source_id ?db l))"
    using snoc.prems by simp
  show ?case
  proof (cases "link_datasheet_id env l")
    case None
    then have "r \<in> set (DatasheetSource ?db)"
      using r by (simp add: keys_upsert_link_None)
    then show ?thesis
      using snoc.IH[OF _ snoc.prems(2)] None same by (simp add: apply_link_def)
  next
    case (Some d)
    from rows_upsert_link[OF Some r] show ?thesis
    proof
      assume a: "link_key r = (d, source_id) \<and> carries r l"
      then have hit: "apply_link env' source_id (foldl (apply_link env' source_id) r ls) l =
         (foldl (apply_link env' source_id) r ls)
           \<lparr>ds_relevanceScore := dict_get l ''relevanceScore'' (JFloat (1 / 2)),
            ds_mentionCount := dict_get l ''mentionCount'' (JInt 1),
            ds_mentionSummary := dict_get l ''mentionSummary'' (JStr []),
            ds_updatedAt := clock_now env'\<rparr>"
        using Some same by (simp add: apply_link_def link_key_foldl_apply_link)
      have "untimed (apply_link env' source_id (foldl (apply_link env' source_id) r ls) l) =
            r\<lparr>ds_relevanceScore := dict_get l ''relevanceScore'' (JFloat (1 / 2)),
              ds_mentionCount := dict_get l ''mentionCount'' (JInt 1),
              ds_mentionSummary := dict_get l ''mentionSummary'' (JStr []),
              ds_updatedAt := 0\<rparr>"
        unfolding hit untimed_def
        by (simp add: foldl_apply_link_absorbed)
      also have "\<dots> = untimed r"
        using a by (simp add: carries_def untimed_def)
      finally show ?thesis by simp
    next
      assume a: "link_key r \<noteq> (d, source_id) \<and> r \<in> set (DatasheetSource ?db)"
      then have "apply_link env' source_id (foldl (apply_link env' source_id) r ls) l =
                 foldl (apply_link env' source_id) r ls"
        using Some same by (auto simp: apply_link_def link_key_foldl_apply_link)
      then show ?thesis
        using snoc.IH[OF _ snoc.prems(2)] a by simp
    qed
  qed
qed

text \<open>
  Every row after the run is a row that was there and that no link names, or carries
  what a link that names it gives.
\<close>

lemma carried_rows:
  "r \<in> set (DatasheetSource (foldl (upsert_link env source_id) db links)) \<Longrightarrow>
   (r \<in> set (DatasheetSource db) \<and>
    (\<forall>l \<in> set links. map_option (\<lambda>d. (d, source_id)) (link_datasheet_id env l) \<noteq>
        Some (link_key r))) \<or>
   (\<exists>l \<in> set links. link_datasheet_id env l = Some (fst (link_key r)) \<and>
      snd (link_key r) = source_id \<and> carries r l)"
proof (induction links arbitrary: r rule: rev_induct)
  case Nil
  then show ?case by simp
next
  case (snoc l ls)
  let ?db = "foldl (upsert_link env source_id) db ls"
  have r: "r \<in> set (DatasheetSource (upsert_link env source_id ?db l))"
    using snoc.prems by simp
  show ?case
  proof (cases "link_datasheet_id env l")
    case None
    then have "r \<in> set (DatasheetSource ?db)"
      using r by (simp add: keys_upsert_link_None)
    from snoc.IH[OF this] show ?thesis using None by auto
  next
    case (Some d)
    from rows_upsert_link[OF Some r] show ?thesis
    proof
      assume "link_key r = (d, source_id) \<and> carries r l"
      then show ?thesis using Some by auto
    next
      assume a: "link_key r \<noteq> (d, source_id) \<and> r \<in> set (DatasheetSource ?db)"
      then have "r \<in> set (DatasheetSource ?db)" by simp
      from snoc.IH[OF this] show ?thesis using a Some by auto
    qed
  qed
qed

lemma db_create_datasheet_links_foldl:
  assumes "get_db_connection env = Inr ()"
      and "\<forall>l \<in> set links. link_datasheet_id env l \<noteq> None"
  shows "db_create_datasheet_links env db source_id links =
           (None, foldl (upsert_link env source_id) db links)"
  using assms by (simp add: db_create_datasheet_links_def create_links_loop_foldl)

text \<open>
  C6: the pairs (datasheet, source) of the link table stay pairwise different through
  db\_create\_datasheet\_links, so that no pair ever has two rows. When the datastore is
  reachable and accepts the id of every link, then after the run
  \<^item> the pair of every link has its row, and the row carries the score, the count and
    the summary of the last link of the run that names the pair;
  \<^item> a row that was there and that a link names is updated in place: it is the old row
    (same id, status, extraction and time of creation) with the score, the count and the
    summary of the last link that names it and with the time of the run as time of
    update;
  \<^item> a row that was there and that no link names is still there, and every row is of one
    of these two kinds or a new row carrying what a link gives;
  \<^item> running the same links a second time, at any later time, creates no row and leaves
    every row as the first run left it, the time of the update apart.
\<close>

theorem datasheet_links_upsert:
  assumes connected: "get_db_connection env = Inr ()" "get_db_connection env' = Inr ()"
      and schema: "datasheet_id_column env' = datasheet_id_column env"
      and unique: "distinct (map link_key (DatasheetSource db))"
      and typed: "\<forall>l \<in> set links. link_datasheet_id env l \<noteq> None"
      and first: "db1 = snd (db_create_datasheet_links env db source_id links)"
      and second: "db2 = snd (db_create_datasheet_links env' db1 source_id links)"
  shows "distinct (map link_key (DatasheetSource db1)) \<and>
         distinct (map link_key (DatasheetSource db2)) \<and>
         (\<forall>pre l post d.
            links = pre @ l # post \<and> link_datasheet_id env l = Some d \<and>
            (\<forall>l' \<in> set post. link_datasheet_id env l' \<noteq> Some d) \<longrightarrow>
            (\<exists>r \<in> set (DatasheetSource db1). link_key r = (d, source_id) \<and> carries r l) \<and>
            (\<forall>r \<in> set (DatasheetSource db). link_key r = (d, source_id) \<longrightarrow>
               r\<lparr>ds_relevanceScore := dict_get l ''relevanceScore'' (JFloat (1 / 2)),
                 ds_mentionCount := dict_get l ''mentionCount'' (JInt 1),
                 ds_mentionSummary := dict_get l ''mentionSummary'' (JStr []),
                 ds_updatedAt := clock_now env\<rparr> \<in> set (DatasheetSource db1))) \<and>
         (\<forall>r \<in> set (DatasheetSource db).
            (\<forall>l \<in> set links. map_option (\<lambda>d. (d, source_id)) (link_datasheet_id env l) \<noteq>
               Some (link_key r)) \<longrightarrow> r \<in> set (DatasheetSource db1)) \<and>
         (\<forall>r \<in> set (DatasheetSource db1).
            (r \<in> set (DatasheetSource db) \<and>
             (\<forall>l \<in> set links. map_option (\<lambda>d. (d, source_id)) (link_datasheet_id env l) \<noteq>
                Some (link_key r))) \<or>
            (\<exists>l \<in> set links. link_datasheet_id env l = Some (fst (link_key r)) \<and>
               snd (link_key r) = source_id \<and> carries r l)) \<and>
         length (DatasheetSource db2) = length (DatasheetSource db1) \<and>
         map untimed (DatasheetSource db2) = map untimed (DatasheetSource db1)"
proof -
  have typed': "\<forall>l \<in> set links. link_datasheet_id env' l \<noteq> None"
    using typed by (simp add: link_datasheet_id_schema[OF schema])
  have db1: "db1 = foldl (upsert_link env source_id) db links"
    using first by (simp add: db_create_datasheet_links_foldl[OF connected(1) typed])
  have db2: "db2 = foldl (upsert_link env' source_id) db1 links"
    using second by (simp add: db_create_datasheet_links_foldl[OF connected(2) typed'])
  have d1: "distinct (map link_key (DatasheetSource db1))"
    unfolding first by (rule distinct_db_create_datasheet_links[OF unique])
  have d2: "distinct (map link_key (DatasheetSource db2))"
    unfolding second by (rule distinct_db_create_datasheet_links[OF d1])
  have last: "\<forall>pre l post d.
            links = pre @ l # post \<and> link_datasheet_id env l = Some d \<and>
            (\<forall>l' \<in> set post. link_datasheet_id env l' \<noteq> Some d) \<longrightarrow>
            (\<exists>r \<in> set (DatasheetSource db1). link_key r = (d, source_id) \<and> carries r l) \<and>
            (\<forall>r \<in> set (DatasheetSource db). link_key r = (d, source_id) \<longrightarrow>
               r\<lparr>ds_relevanceScore := dict_get l ''relevanceScore'' (JFloat (1 / 2)),
                 ds_mentionCount := dict_get l ''mentionCount'' (JInt 1),
                 ds_mentionSummary := dict_get l ''mentionSummary'' (JStr []),
                 ds_updatedAt := clock_now env\<rparr> \<in> set (DatasheetSource db1))"
  proof (intro allI impI, elim conjE)
    fix pre l post d
    assume split: "links = pre @ l # post"
       and named: "link_datasheet_id env l = Some d"
       and later: "\<forall>l' \<in> set post. link_datasheet_id env l' \<noteq> Some d"
    let ?mid = "upsert_link env source_id (foldl (upsert_link env source_id) db pre) l"
    have fold: "db1 = foldl (upsert_link env source_id) ?mid post"
      unfolding db1 split by simp
    obtain r0 where r0: "r0 \<in> set (DatasheetSource ?mid)" "link_key r0 = (d, source_id)"
      "carries r0 l"
      using upsert_link_row[OF named] by blast
    have "foldl (apply_link env source_id) r0 post = r0"
    proof (rule foldl_apply_link_unnamed)
      show "\<forall>l' \<in> set post. map_option (\<lambda>d. (d, source_id)) (link_datasheet_id env l') \<noteq>
              Some (link_key r0)"
        using later r0(2) by (auto simp: map_option_case split: option.splits)
    qed
    then have "r0 \<in> set (DatasheetSource db1)"
      unfolding fold using foldl_upsert_member[OF r0(1), of env source_id post] by simp
    then have one: "\<exists>r \<in> set (DatasheetSource db1). link_key r = (d, source_id) \<and> carries r l"
      using r0 by blast
    have two: "\<forall>r \<in> set (DatasheetSource db). link_key r = (d, source_id) \<longrightarrow>
               r\<lparr>ds_relevanceScore := dict_get l ''relevanceScore'' (JFloat (1 / 2)),
                 ds_mentionCount := dict_get l ''mentionCount'' (JInt 1),
                 ds_mentionSummary := dict_get l ''mentionSummary'' (JStr []),
                 ds_updatedAt := clock_now env\<rparr> \<in> set (DatasheetSource db1)"
    proof (intro ballI impI)
      fix r assume r: "r \<in> set (DatasheetSource db)" and key: "link_key r = (d, source_id)"
      from foldl_upsert_member[OF r, of env source_id links]
      show "r\<lparr>ds_relevanceScore := dict_get l ''relevanceScore'' (JFloat (1 / 2)),
                 ds_mentionCount := dict_get l ''mentionCount'' (JInt 1),
                 ds_mentionSummary := dict_get l ''mentionSummary'' (JStr []),
                 ds_updatedAt := clock_now env\<rparr> \<in> set (DatasheetSource db1)"
        unfolding db1 split foldl_apply_link_last[OF named key later] .
    qed
    from one two show
      "(\<exists>r \<in> set (DatasheetSource db1). link_key r = (d, source_id) \<and> carries r l) \<and>
       (\<forall>r \<in> set (DatasheetSource db). link_key r = (d, source_id) \<longrightarrow>
               r\<lparr>ds_relevanceScore := dict_get l ''relevanceScore'' (JFloat (1 / 2)),
                 ds_mentionCount := dict_get l ''mentionCount'' (JInt 1),
                 ds_mentionSummary := dict_get l ''mentionSummary'' (JStr []),
                 ds_updatedAt := clock_now env\<rparr> \<in> set (DatasheetSource db1))"
      by blast
  qed
  have kept: "\<forall>r \<in> set (DatasheetSource db).
            (\<forall>l \<in> set links. map_option (\<lambda>d. (d, source_id)) (link_datasheet_id env l) \<noteq>
               Some (link_key r)) \<longrightarrow> r \<in> set (DatasheetSource db1)"
  proof (intro ballI impI)
    fix r assume r: "r \<in> set (DatasheetSource db)"
      and free: "\<forall>l \<in> set links. map_option (\<lambda>d. (d, source_id)) (link_datasheet_id env l) \<noteq>
               Some (link_key r)"
    from foldl_upsert_member[OF r, of env source_id links]
    show "r \<in> set (DatasheetSource db1)"
      unfolding db1 foldl_apply_link_unnamed[OF free] .
  qed
  have rows: "\<forall>r \<in> set (DatasheetSource db1).
            (r \<in> set (DatasheetSource db) \<and>
             (\<forall>l \<in> set links. map_option (\<lambda>d. (d, source_id)) (link_datasheet_id env l) \<noteq>
                Some (link_key r))) \<or>
            (\<exists>l \<in> set links. link_datasheet_id env l = Some (fst (link_key r)) \<and>
               snd (link_key r) = source_id \<and> carries r l)"
    unfolding db1 using carried_rows by blast
  have present: "\<forall>l \<in> set links. \<forall>d. link_datasheet_id env l = Some d \<longrightarrow>
            (d, source_id) \<in> set (map link_key (DatasheetSource db1))"
    unfolding db1 using keys_foldl_upsert_links by blast
  have all_present: "\<forall>l \<in> set links. \<exists>d. link_datasheet_id env' l = Some d \<and>
             (d, source_id) \<in> set (map link_key (DatasheetSource db1))"
  proof
    fix l assume l: "l \<in> set links"
    have same: "link_datasheet_id env' l = link_datasheet_id env l"
      using schema by (rule link_datasheet_id_schema)
    from typed l obtain d where "link_datasheet_id env l = Some d" by auto
    with present l same
    show "\<exists>d. link_datasheet_id env' l = Some d \<and>
             (d, source_id) \<in> set (map link_key (DatasheetSource db1))" by auto
  qed
  have again: "DatasheetSource db2 =
          map (\<lambda>r. foldl (apply_link env' source_id) r links) (DatasheetSource db1)"
    unfolding db2 by (rule foldl_upsert_present[OF all_present])
  then have len: "length (DatasheetSource db2) = length (DatasheetSource db1)"
    by simp
  from again have "map untimed (DatasheetSource db2) =
          map (\<lambda>r. untimed (foldl (apply_link env' source_id) r links))
            (DatasheetSource db1)"
    by (simp add: comp_def)
  also have "\<dots> = map untimed (DatasheetSource db1)"
  proof (rule map_cong[OF refl])
    fix r assume "r \<in> set (DatasheetSource db1)"
    then show "untimed (foldl (apply_link env' source_id) r links) = untimed r"
      unfolding db1 using schema by (rule rerun_row)
  qed
  finally have same: "map untimed (DatasheetSource db2) = map untimed (DatasheetSource db1)" .
  show ?thesis
    using d1 d2 last kept rows len same by blast
qed

lemma demo_connected: "get_db_connection demo_env = Inr ()" "get_db_connection later_env = Inr ()"
  by (simp_all add: get_db_connection_def demo_env_def later_env_def set_in_env_def)

lemma demo_env_fields:
  "clock_now demo_env = 100" "gen_random_uuid demo_env = demo_uuid"
  "GOOGLE_API_KEY demo_env = Some ''key''" "unit_context_reply demo_env = demo_reply"
  "datasheet_id_column demo_env = demo_column"
  by (simp_all add: demo_env_def)

lemma demo_links_typed: "\<forall>l \<in> set demo_links. link_datasheet_id demo_env l \<noteq> None"
  by (simp add: demo_links_def link_datasheet_id_def demo_env_fields)

lemma demo_first_run:
  "DatasheetSource (snd (db_create_datasheet_links demo_env demo_db ''src-1'' demo_links)) =
     [(demo_link ''link-1'' ''unit-1'' 10)
        \<lparr>ds_relevanceScore := JFloat (4 / 5), ds_mentionCount := JInt 5,
         ds_mentionSummary := JStr ''Strong'', ds_updatedAt := 100\<rparr>,
      demo_link ''link-2'' ''unit-2'' 11,
      (demo_link ''uuid-1'' ''unit-3'' 100)
        \<lparr>ds_relevanceScore := JFloat (1 / 5), ds_mentionSummary := JStr ''Brief''\<rparr>]"
  unfolding db_create_datasheet_links_foldl[OF demo_connected(1) demo_links_typed]
  by (simp add: demo_links_def demo_db_def upsert_link_def link_datasheet_id_def
      insert_on_conflict_update_def link_key_def demo_link_def dict_get_def demo_env_fields
      demo_uuid_def str_of_nat.simps digit_char_def)

theorem datasheet_links_upsert_witness:
  "get_db_connection demo_env = Inr () \<and> get_db_connection later_env = Inr () \<and>
   datasheet_id_column later_env = datasheet_id_column demo_env \<and>
   distinct (map link_key (DatasheetSource demo_db)) \<and>
   demo_link ''link-1'' ''unit-1'' 10 \<in> set (DatasheetSource demo_db) \<and>
   (demo_link ''link-1'' ''unit-1'' 10)
      \<lparr>ds_relevanceScore := JFloat (4 / 5), ds_mentionCount := JInt 5,
       ds_mentionSummary := JStr ''Strong'', ds_updatedAt := 100\<rparr>
     \<in> set (DatasheetSource (snd (db_create_datasheet_links demo_env demo_db ''src-1'' demo_links)))
   \<and>
   length (DatasheetSource (snd (db_create_datasheet_links demo_env demo_db ''src-1'' demo_links)))
     = 3 \<and>
   map untimed (DatasheetSource
      (snd (db_create_datasheet_links later_env
              (snd (db_create_datasheet_links demo_env demo_db ''src-1'' demo_links))
              ''src-1'' demo_links))) =
   map untimed (DatasheetSource
      (snd (db_create_datasheet_links demo_env demo_db ''src-1'' demo_links)))"
proof -
  have schema: "datasheet_id_column later_env = datasheet_id_column demo_env"
    by (simp add: later_env_def)
  have unique: "distinct (map link_key (DatasheetSource demo_db))"
    by (simp add: demo_db_def demo_link_def link_key_def)
  have old: "demo_link ''link-1'' ''unit-1'' 10 \<in> set (DatasheetSource demo_db)"
    by (simp add: demo_db_def)
  note typed = demo_links_typed
  have len: "length (DatasheetSource
      (snd (db_create_datasheet_links demo_env demo_db ''src-1'' demo_links))) = 3"
    by (simp add: demo_first_run)
  have new: "(demo_link ''link-1'' ''unit-1'' 10)
      \<lparr>ds_relevanceScore := JFloat (4 / 5), ds_mentionCount := JInt 5,
       ds_mentionSummary := JStr ''Strong'', ds_updatedAt := 100\<rparr>
     \<in> set (DatasheetSource (snd (db_create_datasheet_links demo_env demo_db ''src-1'' demo_links)))"
    by (simp add: demo_first_run)
  from datasheet_links_upsert[OF demo_connected schema unique typed refl refl, of "''src-1''"]
  have "map untimed (DatasheetSource
      (snd (db_create_datasheet_links later_env
              (snd (db_create_datasheet_links demo_env demo_db ''src-1'' demo_links))
              ''src-1'' demo_links))) =
   map untimed (DatasheetSource
      (snd (db_create_datasheet_links demo_env demo_db ''src-1'' demo_links)))"
    by blast
  with demo_connected schema unique old new len show ?thesis by simp
qed

subsection \<open>The extraction phase\<close>

lemma context_is_object:
  "reports_unit env link \<Longrightarrow>
   \<exists>context_fields. dict_get (extract_unit_context env link) ''context'' (JDict [])
      = JDict context_fields"
  by (auto simp: reports_unit_def extract_unit_context_def extraction_dict_def dict_get_def
      split: extraction.splits)

lemma ds_id_store_extraction: "ds_id (store_extraction t c k s r) = ds_id r"
  by (simp add: store_extraction_def)

lemma ds_id_extract_row: "ds_id (extract_row env r link) = ds_id r"
  by (auto simp: extract_row_def Let_def ds_id_store_extraction split: json.splits)

lemma status_extract_row_hit:
  "ds_id r = pl_id link \<Longrightarrow> ds_status (extract_row env r link) = ''extracted''"
  using context_is_object[of env link]
  by (auto simp: extract_row_def Let_def store_extraction_def)

lemma status_extract_row_keep:
  "ds_status r = ''extracted'' \<Longrightarrow> ds_status (extract_row env r link) = ''extracted''"
  by (auto simp: extract_row_def Let_def store_extraction_def split: json.splits)

lemma not_found_extract_row:
  "ds_id r = pl_id link \<Longrightarrow> \<not> reports_unit env link \<Longrightarrow>
   extract_row env r link =
     store_extraction (clock_now env) not_found_context (JInt 0) ''extracted'' r"
  by (simp add: extract_row_def)

lemma extract_one_rows:
  assumes "get_db_connection env = Inr ()"
  shows "extract_one env link db =
           db\<lparr>DatasheetSource := map (\<lambda>r. extract_row env r link) (DatasheetSource db)\<rparr>"
proof -
  have test: "(truthy (dict_get (extract_unit_context env link) ''success'' JNull) \<and>
               truthy (dict_get (extract_unit_context env link) ''found'' JNull))
              = reports_unit env link"
    by (simp add: reports_unit_def Let_def)
  show ?thesis
  proof (cases "reports_unit env link")
    case True
    then obtain context_fields where
      c: "dict_get (extract_unit_context env link) ''context'' (JDict []) = JDict context_fields"
      using context_is_object by blast
    show ?thesis
      unfolding extract_one_def extract_row_def Let_def test
      using True c assms by (simp add: db_update_datasheet_source_extraction_def)
  next
    case False
    show ?thesis
      unfolding extract_one_def extract_row_def Let_def test
      using False assms by (simp add: db_update_datasheet_source_extraction_def)
  qed
qed

lemma extract_loop_rows:
  assumes "get_db_connection env = Inr ()"
  shows "foldl (\<lambda>db link. extract_one env link db) db links =
           db\<lparr>DatasheetSource :=
                map (\<lambda>r. foldl (extract_row env) r links) (DatasheetSource db)\<rparr>"
proof (induction links arbitrary: db)
  case Nil
  then show ?case by simp
next
  case (Cons l ls)
  have "foldl (\<lambda>db link. extract_one env link db) db (l # ls) =
        foldl (\<lambda>db link. extract_one env link db) (extract_one env l db) ls"
    by simp
  also have "\<dots> = (extract_one env l db)\<lparr>DatasheetSource :=
      map (\<lambda>r. foldl (extract_row env) r ls) (DatasheetSource (extract_one env l db))\<rparr>"
    by (rule Cons.IH)
  also have "\<dots> = db\<lparr>DatasheetSource :=
                map (\<lambda>r. foldl (extract_row env) r (l # ls)) (DatasheetSource db)\<rparr>"
    by (simp add: extract_one_rows[OF assms] comp_def)
  finally show ?case .
qed

lemma mark_sources_rows:
  "DatasheetSource (foldl (mark_source_extracted env) db source_ids) = DatasheetSource db"
proof (induction source_ids arbitrary: db)
  case Nil
  then show ?case by simp
next
  case (Cons x xs)
  have "DatasheetSource (mark_source_extracted env db x) = DatasheetSource db"
    by (auto simp: mark_source_extracted_def db_update_source_status_def split: sum.splits)
  then show ?case by (simp add: Cons.IH)
qed

lemma ds_id_foldl_extract_row: "ds_id (foldl (extract_row env) r links) = ds_id r"
  by (induction links arbitrary: r) (simp_all add: ds_id_extract_row)

lemma status_foldl_keep:
  "ds_status r = ''extracted'' \<Longrightarrow> ds_status (foldl (extract_row env) r links) = ''extracted''"
  by (induction links arbitrary: r) (simp_all add: status_extract_row_keep)

lemma status_foldl_hit:
  "link \<in> set links \<Longrightarrow> ds_id r = pl_id link \<Longrightarrow>
   ds_status (foldl (extract_row env) r links) = ''extracted''"
proof (induction links arbitrary: r)
  case Nil
  then show ?case by simp
next
  case (Cons l ls)
  show ?case
  proof (cases "ds_id r = pl_id l")
    case True
    then show ?thesis
      by (simp add: status_foldl_keep status_extract_row_hit)
  next
    case False
    then have "link \<in> set ls" using Cons.prems by auto
    moreover have "ds_id (extract_row env r l) = pl_id link"
      using Cons.prems by (simp add: ds_id_extract_row)
    ultimately show ?thesis using Cons.IH by simp
  qed
qed

lemma not_found_foldl_keep:
  "stored_not_found r \<Longrightarrow>
   \<forall>l \<in> set links. pl_id l = ds_id r \<longrightarrow> \<not> reports_unit env l \<Longrightarrow>
   stored_not_found (foldl (extract_row env) r links)"
proof (induction links arbitrary: r)
  case Nil
  then show ?case by simp
next
  case (Cons l ls)
  have step: "stored_not_found (extract_row env r l)"
  proof (cases "ds_id r = pl_id l")
    case True
    then have "\<not> reports_unit env l" using Cons.prems(2) by simp
    then show ?thesis
      using True by (simp add: not_found_extract_row stored_not_found_def store_extraction_def)
  next
    case False
    then show ?thesis using Cons.prems(1) by (simp add: extract_row_def)
  qed
  have "\<forall>l' \<in> set ls. pl_id l' = ds_id (extract_row env r l) \<longrightarrow> \<not> reports_unit env l'"
    using Cons.prems(2) by (simp add: ds_id_extract_row)
  from Cons.IH[OF step this] show ?case by simp
qed

lemma not_found_foldl_hit:
  "link \<in> set links \<Longrightarrow> ds_id r = pl_id link \<Longrightarrow>
   \<forall>l \<in> set links. pl_id l = pl_id link \<longrightarrow> \<not> reports_unit env l \<Longrightarrow>
   stored_not_found (foldl (extract_row env) r links)"
proof (induction links arbitrary: r)
  case Nil
  then show ?case by simp
next
  case (Cons l ls)
  show ?case
  proof (cases "ds_id r = pl_id l")
    case True
    then have nf: "\<not> reports_unit env l" using Cons.prems by simp
    have step: "stored_not_found (extract_row env r l)"
      using True nf by (simp add: not_found_extract_row stored_not_found_def store_extraction_def)
    have "\<forall>l' \<in> set ls. pl_id l' = ds_id (extract_row env r l) \<longrightarrow> \<not> reports_unit env l'"
      using Cons.prems by (simp add: ds_id_extract_row)
    from not_found_foldl_keep[OF step this] show ?thesis by simp
  next
    case False
    then have "link \<in> set ls" using Cons.prems by auto
    moreover have "ds_id (extract_row env r l) = pl_id link"
      using Cons.prems by (simp add: ds_id_extract_row)
    moreover have "\<forall>l' \<in> set ls. pl_id l' = pl_id link \<longrightarrow> \<not> reports_unit env l'"
      using Cons.prems by simp
    ultimately show ?thesis using Cons.IH by simp
  qed
qed

lemma pending_link_has_row:
  "link \<in> set (pending_links_query db) \<Longrightarrow> \<exists>r \<in> set (DatasheetSource db). ds_id r = pl_id link"
  by (auto simp: pending_links_query_def)


lemma extract_pending_links_rows:
  assumes key: "set_in_env (GOOGLE_API_KEY env)"
      and listed: "db_get_pending_datasheet_sources env db = Inr pending_links"
  shows "fst (extract_pending_links env db) = Inr 0 \<and>
         DatasheetSource (snd (extract_pending_links env db)) =
           map (\<lambda>r. foldl (extract_row env) r pending_links) (DatasheetSource db)"
proof -
  have connected: "get_db_connection env = Inr ()"
    using listed by (auto simp: db_get_pending_datasheet_sources_def split: sum.splits)
  show ?thesis
  proof (cases "pending_links = []")
    case True
    then show ?thesis
      using key listed by (simp add: extract_pending_links_def)
  next
    case False
    then show ?thesis
      using key listed
      by (simp add: extract_pending_links_def mark_sources_rows extract_loop_rows[OF connected])
  qed
qed

text \<open>
  C5: let the key of the model be set and let the query for pending links succeed. The
  phase ends with exit code 0. Every link the query returned has its row in the table
  afterwards, and every row with its id has status \<^verbatim>\<open>extracted\<close>. If the reply for the
  link is not a found unit (the unit is reported as not discussed, or the call failed),
  the row holds the context \<^verbatim>\<open>{"found": False}\<close> and confidence 0.
\<close>

theorem extraction_ends_extracted:
  assumes key: "set_in_env (GOOGLE_API_KEY env)"
      and listed: "db_get_pending_datasheet_sources env db = Inr pending_links"
      and link: "link \<in> set pending_links"
      and run: "extract_pending_links env db = (code, db')"
  shows "code = Inr 0 \<and>
         (\<exists>r \<in> set (DatasheetSource db'). ds_id r = pl_id link) \<and>
         (\<forall>r \<in> set (DatasheetSource db'). ds_id r = pl_id link \<longrightarrow>
            ds_status r = ''extracted'' \<and>
            ((\<forall>l \<in> set pending_links. pl_id l = pl_id link \<longrightarrow> \<not> reports_unit env l) \<longrightarrow>
               ds_extractedContext r = Some not_found_context \<and>
               ds_confidence r = Some (JInt 0)))"
proof -
  let ?final = "\<lambda>r. foldl (extract_row env) r pending_links"
  have code: "code = Inr 0"
    and rows: "DatasheetSource db' = map ?final (DatasheetSource db)"
    using extract_pending_links_rows[OF key listed] run by simp_all
  have query: "pending_links = pending_links_query db"
    using listed by (auto simp: db_get_pending_datasheet_sources_def split: sum.splits)
  then obtain r0 where r0: "r0 \<in> set (DatasheetSource db)" "ds_id r0 = pl_id link"
    using link pending_link_has_row by blast
  have "?final r0 \<in> set (DatasheetSource db')" "ds_id (?final r0) = pl_id link"
    using r0 rows by (simp_all add: ds_id_foldl_extract_row)
  then have exists: "\<exists>r \<in> set (DatasheetSource db'). ds_id r = pl_id link"
    by blast
  have all: "\<forall>r \<in> set (DatasheetSource db'). ds_id r = pl_id link \<longrightarrow>
            ds_status r = ''extracted'' \<and>
            ((\<forall>l \<in> set pending_links. pl_id l = pl_id link \<longrightarrow> \<not> reports_unit env l) \<longrightarrow>
               ds_extractedContext r = Some not_found_context \<and>
               ds_confidence r = Some (JInt 0))"
  proof (intro ballI impI)
    fix r assume r: "r \<in> set (DatasheetSource db')" and id: "ds_id r = pl_id link"
    from r rows obtain r1 where r1: "r1 \<in> set (DatasheetSource db)" "r = ?final r1"
      by auto
    then have id1: "ds_id r1 = pl_id link"
      using id by (simp add: ds_id_foldl_extract_row)
    have status: "ds_status r = ''extracted''"
      using r1(2) status_foldl_hit[OF link id1] by simp
    have "(\<forall>l \<in> set pending_links. pl_id l = pl_id link \<longrightarrow> \<not> reports_unit env l) \<longrightarrow>
               ds_extractedContext r = Some not_found_context \<and>
               ds_confidence r = Some (JInt 0)"
    proof
      assume "\<forall>l \<in> set pending_links. pl_id l = pl_id link \<longrightarrow> \<not> reports_unit env l"
      from not_found_foldl_hit[OF link id1 this]
      show "ds_extractedContext r = Some not_found_context \<and> ds_confidence r = Some (JInt 0)"
        using r1(2) by (simp add: stored_not_found_def)
    qed
    with status show "ds_status r = ''extracted'' \<and>
            ((\<forall>l \<in> set pending_links. pl_id l = pl_id link \<longrightarrow> \<not> reports_unit env l) \<longrightarrow>
               ds_extractedContext r = Some not_found_context \<and>
               ds_confidence r = Some (JInt 0))"
      by simp
  qed
  show ?thesis using code exists all by blast
qed

lemma demo_env_connected: "get_db_connection demo_env = Inr ()"
  by (simp add: get_db_connection_def demo_env_def set_in_env_def)

lemma demo_pending_links:
  "db_get_pending_datasheet_sources demo_env demo_db =
     Inr [demo_pending ''link-1'' ''unit-1'' ''Intercessors'',
          demo_pending ''link-2'' ''unit-2'' ''Hellblasters'']"
  by (simp add: db_get_pending_datasheet_sources_def demo_env_connected pending_links_query_def
      demo_db_def demo_link_def demo_source_def demo_pending_def dict_get_def)

lemma demo_replies:
  "reports_unit demo_env (demo_pending ''link-1'' ''unit-1'' ''Intercessors'')"
  "\<not> reports_unit demo_env (demo_pending ''link-2'' ''unit-2'' ''Hellblasters'')"
  by (simp_all add: reports_unit_def extract_unit_context_def extraction_dict_def dict_get_def
      demo_env_def demo_pending_def)

theorem extraction_ends_extracted_witness:
  "set_in_env (GOOGLE_API_KEY demo_env) \<and>
   db_get_pending_datasheet_sources demo_env demo_db =
     Inr [demo_pending ''link-1'' ''unit-1'' ''Intercessors'',
          demo_pending ''link-2'' ''unit-2'' ''Hellblasters''] \<and>
   fst (extract_pending_links demo_env demo_db) = Inr 0 \<and>
   (\<exists>r \<in> set (DatasheetSource (snd (extract_pending_links demo_env demo_db))).
      ds_id r = ''link-1'' \<and> ds_status r = ''extracted'') \<and>
   (\<exists>r \<in> set (DatasheetSource (snd (extract_pending_links demo_env demo_db))).
      ds_id r = ''link-2'' \<and> ds_status r = ''extracted'' \<and>
      ds_extractedContext r = Some not_found_context \<and> ds_confidence r = Some (JInt 0))"
proof -
  let ?l1 = "demo_pending ''link-1'' ''unit-1'' ''Intercessors''"
  let ?l2 = "demo_pending ''link-2'' ''unit-2'' ''Hellblasters''"
  have key: "set_in_env (GOOGLE_API_KEY demo_env)"
    by (simp add: demo_env_def set_in_env_def)
  have run: "extract_pending_links demo_env demo_db =
              (fst (extract_pending_links demo_env demo_db),
               snd (extract_pending_links demo_env demo_db))"
    by simp
  have ids: "pl_id ?l1 = ''link-1''" "pl_id ?l2 = ''link-2''"
    by (simp_all add: demo_pending_def)
  have only: "\<forall>l \<in> set [?l1, ?l2]. pl_id l = pl_id ?l2 \<longrightarrow> \<not> reports_unit demo_env l"
    using demo_replies(2) by (simp add: demo_pending_def)
  have one: "?l1 \<in> set [?l1, ?l2]" and two: "?l2 \<in> set [?l1, ?l2]"
    by simp_all
  from extraction_ends_extracted[OF key demo_pending_links one run]
  have first: "\<exists>r \<in> set (DatasheetSource (snd (extract_pending_links demo_env demo_db))).
      ds_id r = ''link-1'' \<and> ds_status r = ''extracted''"
    unfolding ids by blast
  from extraction_ends_extracted[OF key demo_pending_links two run] only
  have second: "\<exists>r \<in> set (DatasheetSource (snd (extract_pending_links demo_env demo_db))).
      ds_id r = ''link-2'' \<and> ds_status r = ''extracted'' \<and>
      ds_extractedContext r = Some not_found_context \<and> ds_confidence r = Some (JInt 0)"
    unfolding ids by blast
  from extraction_ends_extracted[OF key demo_pending_links two run]
  have code: "fst (extract_pending_links demo_env demo_db) = Inr 0"
    by blast
  show ?thesis
    using key demo_pending_links code first second by blast
qed

subsection \<open>Aggregation without sources\<close>

text \<open>A run of the command that does not return 0 has written nothing.\<close>

lemma aggregate_failure_writes_nothing:
  "ended (aggregate_datasheet_context env db datasheet_id datasheet_name faction_id
            detachment_id) \<noteq> Inr 0 \<Longrightarrow>
   datastore (aggregate_datasheet_context env db datasheet_id datasheet_name faction_id
                detachment_id) = db"
  by (auto simp: aggregate_datasheet_context_def Let_def
      split: if_splits sum.splits option.splits synthesis.splits)

text \<open>
  C7: let the command resolve its datasheet, and let the datasheet have no extracted link
  that is not outdated. Then the datastore after the command is the datastore before
  it. If moreover the key of the model is set, the datastore is reachable and the
  datasheet exists, the command returns 0 after printing that it found 0 valid sources
  and that there is nothing to aggregate.
\<close>

theorem aggregation_of_no_sources:
  assumes resolved: "resolve_datasheet_id env db datasheet_id datasheet_name = Inr resolved_id"
      and empty: "aggregation_sources db resolved_id = []"
  shows "datastore (aggregate_datasheet_context env db datasheet_id datasheet_name faction_id
                      detachment_id) = db \<and>
         (set_in_env (GOOGLE_API_KEY env) \<and> get_db_connection env = Inr () \<and>
          find (\<lambda>d. d_id d = resolved_id) (Datasheet db) = Some datasheet_row \<longrightarrow>
            aggregate_datasheet_context env db datasheet_id datasheet_name faction_id
                detachment_id =
              \<lparr>ended = Inr 0, datastore = db,
               printed = [''Valid sources: 0'', ''No valid sources to aggregate'']\<rparr>)"
proof -
  have zero: "str_of_nat 0 = ''0''"
    by (simp add: str_of_nat.simps digit_char_def)
  have frame: "datastore (aggregate_datasheet_context env db datasheet_id datasheet_name
                  faction_id detachment_id) = db"
    using resolved empty
    by (auto simp: aggregate_datasheet_context_def Let_def
        db_get_datasheet_sources_for_aggregation_def split: sum.splits option.splits)
  have success: "set_in_env (GOOGLE_API_KEY env) \<and> get_db_connection env = Inr () \<and>
          find (\<lambda>d. d_id d = resolved_id) (Datasheet db) = Some datasheet_row \<longrightarrow>
            aggregate_datasheet_context env db datasheet_id datasheet_name faction_id
                detachment_id =
              \<lparr>ended = Inr 0, datastore = db,
               printed = [''Valid sources: 0'', ''No valid sources to aggregate'']\<rparr>"
    using resolved empty zero
    by (simp add: aggregate_datasheet_context_def Let_def
        db_get_datasheet_sources_for_aggregation_def)
  show ?thesis using frame success by blast
qed

lemma demo_env_reachable: "get_db_connection demo_env = Inr ()"
  by (simp add: get_db_connection_def demo_env_def set_in_env_def)

theorem aggregation_of_no_sources_witness:
  "resolve_datasheet_id demo_env demo_db (Some ''unit-1'') None = Inr ''unit-1'' \<and>
   aggregation_sources demo_db ''unit-1'' = [] \<and>
   aggregate_datasheet_context demo_env demo_db (Some ''unit-1'') None None None =
     \<lparr>ended = Inr 0, datastore = demo_db,
      printed = [''Valid sources: 0'', ''No valid sources to aggregate'']\<rparr>"
proof -
  have resolved: "resolve_datasheet_id demo_env demo_db (Some ''unit-1'') None = Inr ''unit-1''"
    by (simp add: resolve_datasheet_id_def opt_str_def)
  have empty: "aggregation_sources demo_db ''unit-1'' = []"
    by (simp add: aggregation_sources_def demo_db_def demo_link_def)
  have key: "set_in_env (GOOGLE_API_KEY demo_env)"
    by (simp add: demo_env_def set_in_env_def)
  have row: "find (\<lambda>d. d_id d = ''unit-1'') (Datasheet demo_db) =
               Some \<lparr>d_id = ''unit-1'', d_name = ''Intercessors'', d_faction = ''Space Marines'',
                     d_factionId = Some ''faction-1'', d_isEnabled = True\<rparr>"
    by (simp add: demo_db_def)
  from aggregation_of_no_sources[OF resolved empty, of None None] key demo_env_reachable row
  have "aggregate_datasheet_context demo_env demo_db (Some ''unit-1'') None None None =
     \<lparr>ended = Inr 0, datastore = demo_db,
      printed = [''Valid sources: 0'', ''No valid sources to aggregate'']\<rparr>"
    by blast
  with resolved empty show ?thesis by simp
qed

subsection \<open>Exit codes of the pipeline commands\<close>

















end
